theory Spec2Isabelle
  imports Complex_Main
begin

section \<open>JavaScript values\<close>

text \<open>
  The route handlers work on values parsed from JSON and on the numbers JavaScript computes
  from them. A number is an IEEE double: the finite ones are modelled by their exact rational
  value (the rounding of a result to the nearest double and the negative zero are not
  modelled), together with \<open>NaN\<close> and the two infinities, on which the comparisons
  and operations below follow IEEE 754. A sum, a difference or a product of finite numbers
  is kept exact, also where the engine has an infinity of the same sign: the handlers read
  such a result only by its sign or as a bound of \<open>slice\<close>, which take both alike.
\<close>

datatype jsnum = Fin rat | NaN | PosInf | NegInf

text \<open>
  The range of a double, for the number a numeric literal denotes. The largest double is
  \<open>2^1024 - 2^971\<close>; a value at or beyond \<open>2^1024 - 2^970\<close>, halfway to
  \<open>2^1024\<close>, rounds to an infinity. The least positive double is \<open>2^-1074\<close>; a
  value of magnitude at most its half rounds to zero. The two bounds are written out in
  decimal (lemma \<open>double_bounds\<close> gives them as powers of 2).
\<close>

definition double_overflow :: rat where
  "double_overflow =
     179769313486231580793728971405303415079934132710037826936173778980444968292764750946649017977587207096330286416692887910946555547851940402630657488671505820681908902000708383676273854845817711531764475730270069855571366959622842914819860834936475292719074168444365510704342711559699508093042880177904174497792"

definition double_underflow :: rat where
  "double_underflow =
     1 / 404804506614621236704990693437834614099113299528284236713802716054860679135990693783920767402874248990374155728633623822779617474771586953734026799881477019843034848553132722728933815484186432682479535356945490137124014966849385397236206711298319112681620113024717539104666829230461005064372655017292012526615415482186989568"

definition to_double :: "rat \<Rightarrow> jsnum" where
  "to_double r =
     (if double_overflow \<le> r then PosInf
      else if r \<le> - double_overflow then NegInf
      else if \<bar>r\<bar> \<le> double_underflow then Fin 0
      else Fin r)"

datatype json =
    JNull
  | JBool bool
  | JNum jsnum
  | JStr string
  | JArr "json list"
  | JObj "(string \<times> json) list"

text \<open>
  An object is the list of its own properties, each key once (as \<open>JSON.parse\<close> and
  object literals produce them); \<open>undefined\<close> is the \<open>None\<close> of a property read.
  Every such object inherits from \<open>Object.prototype\<close>, whose members are these:
\<close>

type_synonym obj = "(string \<times> json) list"

definition prototype_members :: "string list" where
  "prototype_members =
     [''constructor'', ''__defineGetter__'', ''__defineSetter__'', ''hasOwnProperty'',
      ''__lookupGetter__'', ''__lookupSetter__'', ''isPrototypeOf'', ''propertyIsEnumerable'',
      ''toString'', ''valueOf'', ''__proto__'', ''toLocaleString'']"

text \<open>
  Reading \<open>o[k]\<close> on an object, for any key \<open>k\<close>: an own property gives its value;
  failing that, a member of the prototype gives a function (the prototype itself for
  \<open>__proto__\<close>), which is not \<open>undefined\<close>; any other key gives \<open>undefined\<close>.
\<close>

datatype looked_up = Undefined | Own json | Inherited

definition read_key :: "obj \<Rightarrow> string \<Rightarrow> looked_up" where
  "read_key a k =
     (case map_of a k of
        Some v \<Rightarrow> Own v
      | None \<Rightarrow> if k \<in> set prototype_members then Inherited else Undefined)"

definition isFinite :: "jsnum \<Rightarrow> bool" where
  "isFinite n = (case n of Fin _ \<Rightarrow> True | _ \<Rightarrow> False)"

definition isNaN :: "jsnum \<Rightarrow> bool" where
  "isNaN n = (n = NaN)"

text \<open>\<open>a < b\<close> and \<open>a <= b\<close> on numbers: false as soon as one side is NaN.\<close>

fun num_lt :: "jsnum \<Rightarrow> jsnum \<Rightarrow> bool" where
  "num_lt NaN _ = False"
| "num_lt _ NaN = False"
| "num_lt (Fin a) (Fin b) = (a < b)"
| "num_lt (Fin _) PosInf = True"
| "num_lt (Fin _) NegInf = False"
| "num_lt PosInf _ = False"
| "num_lt NegInf NegInf = False"
| "num_lt NegInf _ = True"

fun num_le :: "jsnum \<Rightarrow> jsnum \<Rightarrow> bool" where
  "num_le NaN _ = False"
| "num_le _ NaN = False"
| "num_le (Fin a) (Fin b) = (a \<le> b)"
| "num_le (Fin _) PosInf = True"
| "num_le (Fin _) NegInf = False"
| "num_le PosInf PosInf = True"
| "num_le PosInf _ = False"
| "num_le NegInf _ = True"

text \<open>\<open>a === b\<close> on numbers: NaN is not equal to itself.\<close>

definition num_eq :: "jsnum \<Rightarrow> jsnum \<Rightarrow> bool" where
  "num_eq a b = (a = b \<and> a \<noteq> NaN)"

definition Math_floor :: "jsnum \<Rightarrow> jsnum" where
  "Math_floor n = (case n of Fin r \<Rightarrow> Fin (of_int \<lfloor>r\<rfloor>) | _ \<Rightarrow> n)"

text \<open>\<open>Math.max\<close> and \<open>Math.min\<close> of two numbers: NaN as soon as one argument is NaN.\<close>

definition Math_max :: "jsnum \<Rightarrow> jsnum \<Rightarrow> jsnum" where
  "Math_max a b = (if a = NaN \<or> b = NaN then NaN else if num_lt a b then b else a)"

definition Math_min :: "jsnum \<Rightarrow> jsnum \<Rightarrow> jsnum" where
  "Math_min a b = (if a = NaN \<or> b = NaN then NaN else if num_lt b a then b else a)"

fun num_neg :: "jsnum \<Rightarrow> jsnum" where
  "num_neg (Fin a) = Fin (- a)"
| "num_neg NaN = NaN"
| "num_neg PosInf = NegInf"
| "num_neg NegInf = PosInf"

fun num_add :: "jsnum \<Rightarrow> jsnum \<Rightarrow> jsnum" where
  "num_add NaN _ = NaN"
| "num_add _ NaN = NaN"
| "num_add (Fin a) (Fin b) = Fin (a + b)"
| "num_add (Fin _) b = b"
| "num_add PosInf NegInf = NaN"
| "num_add NegInf PosInf = NaN"
| "num_add a _ = a"

definition num_sub :: "jsnum \<Rightarrow> jsnum \<Rightarrow> jsnum" where
  "num_sub a b = num_add a (num_neg b)"

definition sign_of :: "jsnum \<Rightarrow> rat" where
  "sign_of n = (case n of Fin r \<Rightarrow> sgn r | NaN \<Rightarrow> 0 | PosInf \<Rightarrow> 1 | NegInf \<Rightarrow> -1)"

definition num_mul :: "jsnum \<Rightarrow> jsnum \<Rightarrow> jsnum" where
  "num_mul a b =
     (if a = NaN \<or> b = NaN then NaN
      else case (a, b) of
        (Fin x, Fin y) \<Rightarrow> Fin (x * y)
      | _ \<Rightarrow> (let s = sign_of a * sign_of b
              in if s = 0 then NaN else if 0 < s then PosInf else NegInf))"

text \<open>Truthiness, and the two type tests the handlers use.\<close>

fun truthy :: "json \<Rightarrow> bool" where
  "truthy JNull = False"
| "truthy (JBool b) = b"
| "truthy (JNum n) = (n \<noteq> NaN \<and> n \<noteq> Fin 0)"
| "truthy (JStr s) = (s \<noteq> [])"
| "truthy (JArr _) = True"
| "truthy (JObj _) = True"

text \<open>\<open>typeof v === "object" && v !== null\<close>: arrays are objects too.\<close>

fun is_object :: "json \<Rightarrow> bool" where
  "is_object (JObj _) = True"
| "is_object (JArr _) = True"
| "is_object _ = False"

text \<open>
  Reading a property \<open>v.k\<close> of a value that is not null, for the keys the handlers read
  by name (none of them is \<open>length\<close>, an index or a member of the prototype): only an
  object has them, as its own.
\<close>

fun get_prop :: "json \<Rightarrow> string \<Rightarrow> json option" where
  "get_prop (JObj kvs) k = map_of kvs k"
| "get_prop _ k = None"

text \<open>\<open>!v || typeof v !== "string"\<close> is false exactly on a non-empty string.\<close>

fun nonempty_string :: "json option \<Rightarrow> string option" where
  "nonempty_string (Some (JStr s)) = (if s = [] then None else Some s)"
| "nonempty_string _ = None"

section \<open>Strings\<close>

text \<open>
  A string is the list of its UTF-16 code units. The model has the strings whose code units
  are below 256 (Basic Latin and Latin-1), a character being the code unit of that number.
  The decimal numeral of an array index, as a template literal prints it:
\<close>

definition digit_char :: "nat \<Rightarrow> char" where
  "digit_char d = char_of (48 + d)"

function show_nat :: "nat \<Rightarrow> string" where
  "show_nat n = (if n < 10 then [digit_char n] else show_nat (n div 10) @ [digit_char (n mod 10)])"
  by pat_completeness auto
termination
  by (relation "measure id") auto

declare show_nat.simps [simp del]

text \<open>
  \<open>toLowerCase\<close>: the capital letters below 256 are \<open>A\<close> to \<open>Z\<close> and, in
  Latin-1, 192 to 222 but for the multiplication sign 215; the small letter of each is 32
  further.
\<close>

definition is_upper :: "char \<Rightarrow> bool" where
  "is_upper c = (65 \<le> (of_char c :: nat) \<and> (of_char c :: nat) \<le> 90)"

definition is_latin1_upper :: "char \<Rightarrow> bool" where
  "is_latin1_upper c =
     (192 \<le> (of_char c :: nat) \<and> (of_char c :: nat) \<le> 222 \<and> (of_char c :: nat) \<noteq> 215)"

definition lower_char :: "char \<Rightarrow> char" where
  "lower_char c =
     (if is_upper c \<or> is_latin1_upper c then char_of ((of_char c :: nat) + 32) else c)"

definition toLowerCase :: "string \<Rightarrow> string" where
  "toLowerCase s = map lower_char s"

text \<open>\<open>hay.includes(needle)\<close>: the needle occurs as a contiguous block.\<close>

fun starts_with :: "string \<Rightarrow> string \<Rightarrow> bool" where
  "starts_with [] _ = True"
| "starts_with (n # ns) [] = False"
| "starts_with (n # ns) (h # hs) = (n = h \<and> starts_with ns hs)"

fun str_includes :: "string \<Rightarrow> string \<Rightarrow> bool" where
  "str_includes [] needle = (needle = [])"
| "str_includes (h # hs) needle = (starts_with needle (h # hs) \<or> str_includes hs needle)"

text \<open>
  White space and line terminators (the class a regular expression writes as backslash-s,
  and what \<open>trim\<close> removes), among the code units below 256: TAB, LF, VT, FF, CR, the
  space and the no-break space.
\<close>

definition is_space :: "char \<Rightarrow> bool" where
  "is_space c = ((of_char c :: nat) \<in> {9, 10, 11, 12, 13, 32, 160})"

definition trim :: "string \<Rightarrow> string" where
  "trim s = rev (dropWhile is_space (rev (dropWhile is_space s)))"

text \<open>
  \<open>Number(s)\<close> on a string, after the grammar of string numeric literals: white space is
  trimmed, the empty string is 0, a binary, octal or hexadecimal literal has no sign, a
  decimal literal has an optional sign, fraction and exponent, and anything else is NaN.
  The value of a literal is taken in the range of a double.
\<close>

definition digit_in_base :: "nat \<Rightarrow> char \<Rightarrow> nat option" where
  "digit_in_base b c =
     (let n = (of_char c :: nat);
          d = (if 48 \<le> n \<and> n \<le> 57 then Some (n - 48)
               else if 97 \<le> n \<and> n \<le> 102 then Some (n - 87)
               else if 65 \<le> n \<and> n \<le> 70 then Some (n - 55)
               else None)
      in case d of None \<Rightarrow> None | Some v \<Rightarrow> if v < b then Some v else None)"

definition parse_digits :: "nat \<Rightarrow> string \<Rightarrow> nat option" where
  "parse_digits b s =
     (if s = [] \<or> (\<exists>c \<in> set s. digit_in_base b c = None) then None
      else Some (foldl (\<lambda>a c. a * b + the (digit_in_base b c)) 0 s))"

definition is_digit :: "char \<Rightarrow> bool" where
  "is_digit c = (digit_in_base 10 c \<noteq> None)"

definition parse_signed_int :: "string \<Rightarrow> int option" where
  "parse_signed_int s =
     (case s of
        [] \<Rightarrow> None
      | c # r \<Rightarrow>
          if c = CHR ''+'' then map_option int (parse_digits 10 r)
          else if c = CHR ''-'' then map_option (\<lambda>n. - int n) (parse_digits 10 r)
          else map_option int (parse_digits 10 s))"

definition scale10 :: "rat \<Rightarrow> int \<Rightarrow> rat" where
  "scale10 m e = (if 0 \<le> e then m * 10 ^ nat e else m / 10 ^ nat (- e))"

definition parse_unsigned_decimal :: "string \<Rightarrow> jsnum" where
  "parse_unsigned_decimal s =
     (if s = ''Infinity'' then PosInf
      else
        let is_e = (\<lambda>c. c = CHR ''e'' \<or> c = CHR ''E'');
            mant = takeWhile (\<lambda>c. \<not> is_e c) s;
            rest = dropWhile (\<lambda>c. \<not> is_e c) s;
            ex = (if rest = [] then Some 0 else parse_signed_int (tl rest));
            ip = takeWhile is_digit mant;
            r2 = dropWhile is_digit mant;
            fp = (if r2 = [] then Some []
                  else if hd r2 = CHR ''.'' \<and> list_all is_digit (tl r2) then Some (tl r2)
                  else None)
        in case (ex, fp) of
             (Some e, Some f) \<Rightarrow>
               (case parse_digits 10 (ip @ f) of
                  None \<Rightarrow> NaN
                | Some m \<Rightarrow> to_double (scale10 (of_nat m) (e - int (length f))))
           | _ \<Rightarrow> NaN)"

definition js_Number :: "string \<Rightarrow> jsnum" where
  "js_Number s =
     (let t = trim s
      in case t of
           [] \<Rightarrow> Fin 0
         | c # r \<Rightarrow>
             if c = CHR ''0'' \<and> r \<noteq> [] \<and> hd r \<in> set ''xX'' then
               (case parse_digits 16 (tl r) of None \<Rightarrow> NaN | Some n \<Rightarrow> to_double (of_nat n))
             else if c = CHR ''0'' \<and> r \<noteq> [] \<and> hd r \<in> set ''oO'' then
               (case parse_digits 8 (tl r) of None \<Rightarrow> NaN | Some n \<Rightarrow> to_double (of_nat n))
             else if c = CHR ''0'' \<and> r \<noteq> [] \<and> hd r \<in> set ''bB'' then
               (case parse_digits 2 (tl r) of None \<Rightarrow> NaN | Some n \<Rightarrow> to_double (of_nat n))
             else if c = CHR ''+'' then parse_unsigned_decimal r
             else if c = CHR ''-'' then num_neg (parse_unsigned_decimal r)
             else parse_unsigned_decimal t)"

text \<open>
  The conversion of an object to a primitive calls its \<open>valueOf\<close> and its \<open>toString\<close>.
  The inherited \<open>valueOf\<close> returns the object, and an own \<open>valueOf\<close> of a parsed object
  is not a function, so the primitive is what \<open>toString\<close> returns: the inherited one gives
  \<open>[object Object]\<close>, and an own \<open>toString\<close>, which is not a function, leaves nothing
  to call: the conversion throws a TypeError. An array converts through \<open>join\<close>, which
  converts every element that is not null.
\<close>

fun throws_to_primitive :: "json \<Rightarrow> bool" where
  "throws_to_primitive (JObj kvs) = (''toString'' \<in> fst ` set kvs)"
| "throws_to_primitive (JArr xs) = (\<exists>x \<in> set xs. throws_to_primitive x)"
| "throws_to_primitive _ = False"

text \<open>
  \<open>Number(v)\<close> on a value whose conversion does not throw: an array goes through its
  string (the elements joined by commas, null as the empty string), so only an array of at
  most one element can be a number; an object prints as \<open>[object Object]\<close>, which is NaN.
\<close>

fun to_number :: "json \<Rightarrow> jsnum" where
  "to_number JNull = Fin 0"
| "to_number (JBool b) = Fin (if b then 1 else 0)"
| "to_number (JNum n) = n"
| "to_number (JStr s) = js_Number s"
| "to_number (JObj _) = NaN"
| "to_number (JArr []) = Fin 0"
| "to_number (JArr [x]) = (case x of JBool _ \<Rightarrow> NaN | _ \<Rightarrow> to_number x)"
| "to_number (JArr (x # y # zs)) = NaN"

section \<open>The runtime\<close>

text \<open>
  What the handlers take from the JavaScript engine and the host, as parameters of the
  model: the decimal text of a finite number in a template literal, the text of the error
  the engine raises at a named place, the SHA-256 digest in hexadecimal, the identifier
  \<open>crypto.randomUUID()\<close> returns and the time of the request (one request reads one
  time), and the collation order of \<open>localeCompare\<close>.
\<close>

record runtime =
  number_to_string :: "rat \<Rightarrow> string"
  engine_error :: "string \<Rightarrow> string"
  sha256_hex :: "string \<Rightarrow> string"
  random_uuid :: string
  now_iso :: string
  now_ms :: nat
  locale_compare :: "string \<Rightarrow> string \<Rightarrow> jsnum"

text \<open>A response of \<open>NextResponse.json\<close>: the status and the value that is serialised.\<close>

record response =
  status :: nat
  body :: json

section \<open>Orders: the payload validator\<close>

text \<open>
  \<open>validateOrderPayload\<close> throws an \<open>Error\<close> with a message or returns the normalised
  request; the model returns \<open>Inl\<close> of the message or \<open>Inr\<close> of the request. The numbers
  of an accepted request have passed \<open>Number.isFinite\<close>, so the request carries their
  finite values.
\<close>

record order_item_request =
  productId :: string
  quantity :: rat
  price :: "rat option"

record create_order_request =
  userId :: string
  items :: "order_item_request list"
  shipping :: "json option"
  paymentMethod :: "string option"
  total :: rat

text \<open>
  The test on \<open>item.quantity\<close>:
  \<open>typeof q !== "number" || !Number.isFinite(q) || q <= 0 || Math.floor(q) !== q\<close>.
\<close>

definition quantity_invalid :: "json option \<Rightarrow> bool" where
  "quantity_invalid v =
     (case v of
        Some (JNum n) \<Rightarrow> \<not> isFinite n \<or> num_le n (Fin 0) \<or> \<not> num_eq (Math_floor n) n
      | _ \<Rightarrow> True)"

definition finite_value :: "json option \<Rightarrow> rat" where
  "finite_value v = (case v of Some (JNum (Fin r)) \<Rightarrow> r | _ \<Rightarrow> 0)"

definition object_error :: "nat \<Rightarrow> string" where
  "object_error idx = ''Item at index '' @ show_nat idx @ '' must be an object.''"

definition productId_error :: "nat \<Rightarrow> string" where
  "productId_error idx = ''Missing or invalid 'productId' for item at index '' @ show_nat idx @ ''.''"

definition quantity_error :: "nat \<Rightarrow> string" where
  "quantity_error idx =
     ''Missing or invalid 'quantity' for item at index '' @ show_nat idx @ ''. Must be a positive integer.''"

definition price_error :: "nat \<Rightarrow> string" where
  "price_error idx = ''Invalid 'price' for item at index '' @ show_nat idx @ ''.''"

text \<open>The callback of \<open>p.items.map\<close>, on the item and its index.\<close>

definition validate_item :: "nat \<Rightarrow> json \<Rightarrow> string + order_item_request" where
  "validate_item idx it =
     (if \<not> is_object it then Inl (object_error idx)
      else case nonempty_string (get_prop it ''productId'') of
        None \<Rightarrow> Inl (productId_error idx)
      | Some pid \<Rightarrow>
          if quantity_invalid (get_prop it ''quantity'') then Inl (quantity_error idx)
          else
            (case get_prop it ''price'' of
               None \<Rightarrow>
                 Inr \<lparr>productId = pid, quantity = finite_value (get_prop it ''quantity''),
                      price = None\<rparr>
             | Some (JNum (Fin r)) \<Rightarrow>
                 Inr \<lparr>productId = pid, quantity = finite_value (get_prop it ''quantity''),
                      price = Some r\<rparr>
             | Some _ \<Rightarrow> Inl (price_error idx)))"

text \<open>\<open>map\<close> visits the items in order; the first throw ends it.\<close>

fun validate_items :: "nat \<Rightarrow> json list \<Rightarrow> string + order_item_request list" where
  "validate_items idx [] = Inr []"
| "validate_items idx (it # its) =
     (case validate_item idx it of
        Inl e \<Rightarrow> Inl e
      | Inr r \<Rightarrow>
          (case validate_items (Suc idx) its of
             Inl e \<Rightarrow> Inl e
           | Inr rs \<Rightarrow> Inr (r # rs)))"

definition total_error :: string where
  "total_error = ''Missing or invalid 'total'. Must be a non-negative number.''"

definition validateOrderPayload :: "json \<Rightarrow> string + create_order_request" where
  "validateOrderPayload payload =
     (if \<not> is_object payload then Inl ''Payload must be a JSON object.''
      else case nonempty_string (get_prop payload ''userId'') of
        None \<Rightarrow> Inl ''Missing or invalid 'userId'.''
      | Some uid \<Rightarrow>
          (case get_prop payload ''items'' of
             Some (JArr (it # its)) \<Rightarrow>
               (case validate_items 0 (it # its) of
                  Inl e \<Rightarrow> Inl e
                | Inr rs \<Rightarrow>
                    (case get_prop payload ''total'' of
                       Some (JNum (Fin t)) \<Rightarrow>
                         if t < 0 then Inl total_error
                         else
                           Inr \<lparr>userId = uid, items = rs,
                                shipping =
                                  (case get_prop payload ''shipping'' of
                                     Some v \<Rightarrow> if is_object v then Some v else None
                                   | None \<Rightarrow> None),
                                paymentMethod = nonempty_string (get_prop payload ''paymentMethod''),
                                total = t\<rparr>
                     | _ \<Rightarrow> Inl total_error))
           | _ \<Rightarrow> Inl '''items' must be a non-empty array.''))"

section \<open>Orders: the store and the handlers\<close>

text \<open>
  The relational store behind the Prisma client, as the rows the handlers read and write.
  A product has the columns the handler selects; a stock of \<open>None\<close> is the null of an
  untracked inventory. An order gets its identifier and its creation time from the store.
  The reads and writes of the store succeed: a failure of the database is not modelled.
\<close>

record user_row =
  u_id :: string
  u_name :: "string option"
  u_email :: string
  u_password :: string

record product_row =
  p_id :: string
  p_name :: string
  p_price :: "rat option"
  p_stock :: "rat option"

record order_row =
  o_id :: nat
  o_userId :: string
  o_total :: rat
  o_status :: string
  o_paymentMethod :: "string option"
  o_shipping :: "json option"
  o_createdAt :: nat

record order_item_row =
  oi_orderId :: nat
  oi_productId :: string
  oi_quantity :: rat
  oi_price :: rat

record store =
  users :: "user_row list"
  products :: "product_row list"
  orders :: "order_row list"
  order_items :: "order_item_row list"
  next_order_id :: nat

definition json_error :: "nat \<Rightarrow> string \<Rightarrow> response" where
  "json_error code msg =
     \<lparr>status = code, body = JObj [(''success'', JBool False), (''error'', JStr msg)]\<rparr>"

text \<open>\<open>new Map(entries)\<close>: a later entry replaces an earlier one with the same key.\<close>

definition Map_of_entries :: "('k \<times> 'v) list \<Rightarrow> 'k \<Rightarrow> 'v option" where
  "Map_of_entries es = map_of (rev es)"

text \<open>
  \<open>prisma.product.findMany({ where: { id: { in: productIds } } })\<close>; the identifiers are
  those of the items without repetition (only membership is used).
\<close>

definition find_products :: "store \<Rightarrow> string list \<Rightarrow> product_row list" where
  "find_products s ids = filter (\<lambda>p. p_id p \<in> set ids) (products s)"

definition insufficient_stock_error :: "runtime \<Rightarrow> product_row \<Rightarrow> rat \<Rightarrow> rat \<Rightarrow> string" where
  "insufficient_stock_error rt pr requested available =
     ''Insufficient stock for product '' @ p_name pr @ '' ('' @ p_id pr @ ''). Requested ''
       @ number_to_string rt requested @ '', available '' @ number_to_string rt available @ ''.''"

text \<open>The loop of checks before the transaction: the first failing item answers.\<close>

fun check_items ::
  "runtime \<Rightarrow> (string \<Rightarrow> product_row option) \<Rightarrow> order_item_request list \<Rightarrow> response option" where
  "check_items rt byId [] = None"
| "check_items rt byId (item # rest) =
     (case byId (productId item) of
        None \<Rightarrow> Some (json_error 404 (''Product not found: '' @ productId item))
      | Some pr \<Rightarrow>
          (case p_stock pr of
             Some available \<Rightarrow>
               if available < quantity item
               then Some (json_error 400 (insufficient_stock_error rt pr (quantity item) available))
               else check_items rt byId rest
           | None \<Rightarrow> check_items rt byId rest))"

text \<open>\<open>tx.product.update({ where: { id }, data: { stock: { decrement: q } } })\<close>.\<close>

definition decrement_stock :: "string \<Rightarrow> rat \<Rightarrow> store \<Rightarrow> store" where
  "decrement_stock pid q s =
     s\<lparr>products :=
         map (\<lambda>p. if p_id p = pid then p\<lparr>p_stock := map_option (\<lambda>x. x - q) (p_stock p)\<rparr> else p)
             (products s)\<rparr>"

text \<open>\<open>item.price ?? prod.price ?? 0\<close>.\<close>

definition snapshot_price :: "order_item_request \<Rightarrow> product_row \<Rightarrow> rat" where
  "snapshot_price item pr =
     (case price item of
        Some x \<Rightarrow> x
      | None \<Rightarrow> (case p_price pr of Some c \<Rightarrow> c | None \<Rightarrow> 0))"

text \<open>
  The loop inside the transaction. \<open>None\<close> is the throw of reading \<open>prod.price\<close> on a
  product missing from the map, which rolls the transaction back.
\<close>

fun create_items ::
  "(string \<Rightarrow> product_row option) \<Rightarrow> nat \<Rightarrow> order_item_request list \<Rightarrow> store \<Rightarrow> store option" where
  "create_items byId oid [] s = Some s"
| "create_items byId oid (item # rest) s =
     (case byId (productId item) of
        None \<Rightarrow> None
      | Some pr \<Rightarrow>
          (let s1 = s\<lparr>order_items := order_items s @
                        [\<lparr>oi_orderId = oid, oi_productId = productId item,
                          oi_quantity = quantity item, oi_price = snapshot_price item pr\<rparr>]\<rparr>;
               s2 = (if p_stock pr \<noteq> None then decrement_stock (p_id pr) (quantity item) s1
                     else s1)
           in create_items byId oid rest s2))"

text \<open>
  What the responses serialise. The user of an order is read with
  \<open>select: { id: true, name: true, email: true }\<close>; the product of an item with
  \<open>product: true\<close>.
\<close>

definition opt_json :: "('a \<Rightarrow> json) \<Rightarrow> 'a option \<Rightarrow> json" where
  "opt_json f v = (case v of None \<Rightarrow> JNull | Some x \<Rightarrow> f x)"

definition user_projection :: "user_row \<Rightarrow> json" where
  "user_projection u =
     JObj [(''id'', JStr (u_id u)), (''name'', opt_json JStr (u_name u)), (''email'', JStr (u_email u))]"

definition product_json :: "product_row \<Rightarrow> json" where
  "product_json p =
     JObj [(''id'', JStr (p_id p)), (''name'', JStr (p_name p)),
           (''price'', opt_json (\<lambda>r. JNum (Fin r)) (p_price p)),
           (''stock'', opt_json (\<lambda>r. JNum (Fin r)) (p_stock p))]"

definition order_item_json :: "store \<Rightarrow> order_item_row \<Rightarrow> json" where
  "order_item_json s r =
     JObj [(''orderId'', JNum (Fin (of_nat (oi_orderId r)))),
           (''productId'', JStr (oi_productId r)),
           (''quantity'', JNum (Fin (oi_quantity r))),
           (''price'', JNum (Fin (oi_price r))),
           (''product'', opt_json product_json (find (\<lambda>p. p_id p = oi_productId r) (products s)))]"

definition order_json :: "store \<Rightarrow> order_row \<Rightarrow> json" where
  "order_json s ord =
     JObj [(''id'', JNum (Fin (of_nat (o_id ord)))),
           (''userId'', JStr (o_userId ord)),
           (''total'', JNum (Fin (o_total ord))),
           (''status'', JStr (o_status ord)),
           (''paymentMethod'', opt_json JStr (o_paymentMethod ord)),
           (''shipping'', opt_json id (o_shipping ord)),
           (''createdAt'', JNum (Fin (of_nat (o_createdAt ord)))),
           (''items'', JArr (map (order_item_json s)
                              (filter (\<lambda>r. oi_orderId r = o_id ord) (order_items s)))),
           (''user'', opt_json user_projection (find (\<lambda>u. u_id u = o_userId ord) (users s)))]"

text \<open>\<open>GET /api/orders\<close>: every order, the most recent first.\<close>

definition GET_orders :: "store \<Rightarrow> response" where
  "GET_orders s =
     \<lparr>status = 200,
      body = JObj [(''success'', JBool True),
                   (''data'', JArr (map (order_json s) (rev (sort_key o_createdAt (orders s)))))]\<rparr>"

text \<open>
  The \<open>catch\<close> of \<open>POST\<close> chooses the status from the text of the message:
  \<open>message && lower.includes("missing") || lower.includes("invalid")\<close>.
\<close>

definition catch_response :: "string \<Rightarrow> response" where
  "catch_response message =
     (if (message \<noteq> [] \<and> str_includes (toLowerCase message) ''missing'')
         \<or> str_includes (toLowerCase message) ''invalid''
      then json_error 400 message
      else json_error 500 message)"

text \<open>
  \<open>POST /api/orders\<close> on the parsed body: the response and the store after it. The
  transaction is all or nothing: when it throws, the store is the one before.
\<close>

definition POST_orders :: "runtime \<Rightarrow> store \<Rightarrow> json \<Rightarrow> response \<times> store" where
  "POST_orders rt s payload =
     (case validateOrderPayload payload of
        Inl message \<Rightarrow> (catch_response message, s)
      | Inr req \<Rightarrow>
          (case find (\<lambda>u. u_id u = userId req) (users s) of
             None \<Rightarrow> (json_error 404 ''User not found.'', s)
           | Some user \<Rightarrow>
               (let productIds = remdups (map productId (items req));
                    byId = Map_of_entries (map (\<lambda>p. (p_id p, p)) (find_products s productIds))
                in case check_items rt byId (items req) of
                     Some r \<Rightarrow> (r, s)
                   | None \<Rightarrow>
                       (let ord = \<lparr>o_id = next_order_id s, o_userId = userId req,
                                   o_total = total req, o_status = ''pending'',
                                   o_paymentMethod = paymentMethod req,
                                   o_shipping = shipping req, o_createdAt = now_ms rt\<rparr>;
                            s0 = s\<lparr>orders := orders s @ [ord],
                                   next_order_id := Suc (next_order_id s)\<rparr>
                        in case create_items byId (o_id ord) (items req) s0 of
                             None \<Rightarrow> (catch_response (engine_error rt ''prod.price''), s)
                           | Some s' \<Rightarrow>
                               (\<lparr>status = 201,
                                 body = JObj [(''success'', JBool True),
                                              (''data'', opt_json (order_json s')
                                                 (find (\<lambda>x. o_id x = o_id ord) (orders s')))]\<rparr>,
                                s')))))"

section \<open>Users: the in-memory adapter and the handlers\<close>

text \<open>
  \<open>getDbAdapter\<close> finds no \<open>prisma\<close> export and no helper functions in \<open>lib/db\<close>, so the
  adapter is the in-memory store: a \<open>Map\<close> from identifiers to the records that
  \<open>create\<close> and \<open>updateById\<close> build, which are objects, in insertion order. A key is
  compared as \<open>Map\<close> does; no key is ever an array or an object.
\<close>

type_synonym memory = "(json \<times> obj) list"

fun assoc_set :: "'k \<Rightarrow> 'v \<Rightarrow> ('k \<times> 'v) list \<Rightarrow> ('k \<times> 'v) list" where
  "assoc_set k v [] = [(k, v)]"
| "assoc_set k v ((k', v') # r) = (if k' = k then (k, v) # r else (k', v') # assoc_set k v r)"

text \<open>\<open>{ ...a, ...b }\<close>: the properties of \<open>b\<close> are set on a copy of \<open>a\<close>, one by one.\<close>

definition obj_merge :: "obj \<Rightarrow> obj \<Rightarrow> obj" where
  "obj_merge a b = foldl (\<lambda>acc kv. assoc_set (fst kv) (snd kv) acc) a b"

text \<open>
  The own enumerable properties a spread or a rest pattern copies: those of an object, the
  indices of an array or of a string, none of another value.
\<close>

fun spread :: "json \<Rightarrow> obj" where
  "spread (JObj kvs) = kvs"
| "spread (JArr xs) = zip (map show_nat [0..<length xs]) xs"
| "spread (JStr s) = zip (map show_nat [0..<length s]) (map (\<lambda>c. JStr [c]) s)"
| "spread _ = []"

text \<open>\<open>a === b\<close>: by value on primitives, by identity (here: never) on arrays and objects.\<close>

fun strict_eq :: "json \<Rightarrow> json \<Rightarrow> bool" where
  "strict_eq JNull JNull = True"
| "strict_eq (JBool a) (JBool b) = (a = b)"
| "strict_eq (JNum a) (JNum b) = num_eq a b"
| "strict_eq (JStr a) (JStr b) = (a = b)"
| "strict_eq _ _ = False"

definition mem_get :: "memory \<Rightarrow> json \<Rightarrow> obj option" where
  "mem_get m k = (case k of JArr _ \<Rightarrow> None | JObj _ \<Rightarrow> None | _ \<Rightarrow> map_of m k)"

definition mem_getByEmail :: "memory \<Rightarrow> json \<Rightarrow> obj option" where
  "mem_getByEmail m email =
     map_option snd
       (find (\<lambda>kv. case map_of (snd kv) ''email'' of
                     Some e \<Rightarrow> strict_eq e email
                   | None \<Rightarrow> False) m)"

text \<open>\<open>create\<close>: \<open>{ id, ...data, createdAt: now, updatedAt: now }\<close> under \<open>data.id ?? randomUUID()\<close>.\<close>

definition mem_create :: "runtime \<Rightarrow> obj \<Rightarrow> memory \<Rightarrow> obj \<times> memory" where
  "mem_create rt dat m =
     (let ident = (case map_of dat ''id'' of
                     None \<Rightarrow> JStr (random_uuid rt)
                   | Some v \<Rightarrow> if v = JNull then JStr (random_uuid rt) else v);
          rec = assoc_set ''updatedAt'' (JStr (now_iso rt))
                  (assoc_set ''createdAt'' (JStr (now_iso rt))
                     (obj_merge [(''id'', ident)] dat))
      in (rec, assoc_set ident rec m))"

definition mem_updateById :: "runtime \<Rightarrow> json \<Rightarrow> obj \<Rightarrow> memory \<Rightarrow> json \<times> memory" where
  "mem_updateById rt ident updates m =
     (case mem_get m ident of
        None \<Rightarrow> (JNull, m)
      | Some existing \<Rightarrow>
          (let updated = assoc_set ''updatedAt'' (JStr (now_iso rt)) (obj_merge existing updates)
           in (JObj updated, assoc_set ident updated m)))"

definition mem_deleteById :: "json \<Rightarrow> memory \<Rightarrow> json \<times> memory" where
  "mem_deleteById ident m =
     (case mem_get m ident of
        None \<Rightarrow> (JNull, m)
      | Some existed \<Rightarrow> (JObj existed, filter (\<lambda>kv. fst kv \<noteq> ident) m))"

text \<open>\<open>sanitizeUser\<close>: a falsy value as it is, else the rest of \<open>{ password, ...rest }\<close>.\<close>

definition sanitizeUser :: "json \<Rightarrow> json" where
  "sanitizeUser user =
     (if \<not> truthy user then user
      else JObj (filter (\<lambda>kv. fst kv \<noteq> ''password'') (spread user)))"

text \<open>\<open>hashPassword\<close>: the digest of a string; any other JSON value makes \<open>update\<close> throw.\<close>

definition hashPassword :: "runtime \<Rightarrow> json \<Rightarrow> string + string" where
  "hashPassword rt password =
     (case password of
        JStr s \<Rightarrow> Inr (sha256_hex rt s)
      | _ \<Rightarrow> Inl (engine_error rt ''hash.update''))"

definition user_error :: "nat \<Rightarrow> string \<Rightarrow> response" where
  "user_error code msg = \<lparr>status = code, body = JObj [(''error'', JStr msg)]\<rparr>"

text \<open>A query parameter is \<open>null\<close> or a string; \<open>if (id)\<close> holds on a non-empty one.\<close>

definition param_given :: "string option \<Rightarrow> bool" where
  "param_given p = (case p of None \<Rightarrow> False | Some s \<Rightarrow> s \<noteq> [])"

definition users_GET :: "memory \<Rightarrow> string option \<Rightarrow> string option \<Rightarrow> response" where
  "users_GET m ident email =
     (if param_given ident then
        (case mem_get m (JStr (the ident)) of
           None \<Rightarrow> user_error 404 ''User not found''
         | Some result \<Rightarrow> \<lparr>status = 200, body = sanitizeUser (JObj result)\<rparr>)
      else if param_given email then
        (case mem_getByEmail m (JStr (the email)) of
           None \<Rightarrow> user_error 404 ''User not found''
         | Some result \<Rightarrow> \<lparr>status = 200, body = sanitizeUser (JObj result)\<rparr>)
      else \<lparr>status = 200, body = JArr (map (\<lambda>kv. sanitizeUser (JObj (snd kv))) m)\<rparr>)"

definition prop_truthy :: "json \<Rightarrow> string \<Rightarrow> bool" where
  "prop_truthy v k = (case get_prop v k of None \<Rightarrow> False | Some x \<Rightarrow> truthy x)"

text \<open>\<open>v.k ?? d\<close>.\<close>

definition prop_or :: "json \<Rightarrow> string \<Rightarrow> json \<Rightarrow> json" where
  "prop_or v k d = (case get_prop v k of None \<Rightarrow> d | Some x \<Rightarrow> if x = JNull then d else x)"

definition users_POST :: "runtime \<Rightarrow> memory \<Rightarrow> json \<Rightarrow> response \<times> memory" where
  "users_POST rt m b =
     (if \<not> truthy b \<or> \<not> prop_truthy b ''email'' \<or> \<not> prop_truthy b ''password''
      then (user_error 400 ''Email and password are required'', m)
      else
        (case mem_getByEmail m (the (get_prop b ''email'')) of
           Some existing \<Rightarrow> (user_error 409 ''Email already in use'', m)
         | None \<Rightarrow>
             (case hashPassword rt (the (get_prop b ''password'')) of
                Inl msg \<Rightarrow> (user_error 500 msg, m)
              | Inr digest \<Rightarrow>
                  (let toCreate =
                         [(''name'', prop_or b ''name'' JNull),
                          (''email'', the (get_prop b ''email'')),
                          (''password'', JStr digest),
                          (''role'', prop_or b ''role'' (JStr ''user'')),
                          (''createdAt'', JStr (now_iso rt)),
                          (''updatedAt'', JStr (now_iso rt))];
                       (created, m') = mem_create rt toCreate m
                   in (\<lparr>status = 201, body = sanitizeUser (JObj created)\<rparr>, m')))))"

text \<open>The lookup shared by \<open>PUT\<close> and \<open>DELETE\<close>: by id when it is given, else by email.\<close>

definition find_existing :: "memory \<Rightarrow> string option \<Rightarrow> string option \<Rightarrow> obj option" where
  "find_existing m ident email =
     (if param_given ident then mem_get m (JStr (the ident))
      else mem_getByEmail m (JStr (the email)))"

text \<open>\<open>existing.id ?? id\<close>, the query parameter being \<open>null\<close> when absent.\<close>

definition target_id :: "obj \<Rightarrow> string option \<Rightarrow> json" where
  "target_id existing ident = prop_or (JObj existing) ''id'' (opt_json JStr ident)"

definition users_PUT ::
  "runtime \<Rightarrow> memory \<Rightarrow> string option \<Rightarrow> string option \<Rightarrow> json \<Rightarrow> response \<times> memory" where
  "users_PUT rt m ident email updates =
     (if \<not> param_given ident \<and> \<not> param_given email
      then (user_error 400 ''id or email query parameter is required'', m)
      else
        (case find_existing m ident email of
           None \<Rightarrow> (user_error 404 ''User not found'', m)
         | Some existing \<Rightarrow>
             if updates = JNull then (user_error 500 (engine_error rt ''updates.password''), m)
             else
               (case (if prop_truthy updates ''password''
                      then map_sum id Some (hashPassword rt (the (get_prop updates ''password'')))
                      else Inr None) of
                  Inl msg \<Rightarrow> (user_error 500 msg, m)
                | Inr digest \<Rightarrow>
                    (let p0 = spread updates;
                         p1 = (case digest of None \<Rightarrow> p0
                               | Some d \<Rightarrow> assoc_set ''password'' (JStr d) p0);
                         updatePayload = assoc_set ''updatedAt'' (JStr (now_iso rt)) p1;
                         targetId = target_id existing ident
                     in if \<not> truthy targetId
                        then (user_error 500 ''Unable to determine user id'', m)
                        else
                          (let (updated, m') = mem_updateById rt targetId updatePayload m
                           in (\<lparr>status = 200, body = sanitizeUser updated\<rparr>, m'))))))"

definition users_DELETE ::
  "memory \<Rightarrow> string option \<Rightarrow> string option \<Rightarrow> response \<times> memory" where
  "users_DELETE m ident email =
     (if \<not> param_given ident \<and> \<not> param_given email
      then (user_error 400 ''id or email query parameter is required'', m)
      else
        (case find_existing m ident email of
           None \<Rightarrow> (user_error 404 ''User not found'', m)
         | Some existing \<Rightarrow>
             (let targetId = target_id existing ident
              in if \<not> truthy targetId
                 then (user_error 500 ''Unable to determine user id'', m)
                 else
                   (let (deleted, m') = mem_deleteById targetId m
                    in (\<lparr>status = 200,
                         body = JObj [(''success'', JBool True), (''user'', sanitizeUser deleted)]\<rparr>,
                        m')))))"

section \<open>Products: slugs, the payload validator and creation\<close>

text \<open>
  \<open>str.replace(/P+/g, r)\<close> for a class \<open>P\<close> of characters, with the least length of a run
  that the pattern matches: every maximal run of at least \<open>n\<close> characters of \<open>P\<close> becomes
  \<open>r\<close>.
\<close>

function replace_runs :: "nat \<Rightarrow> (char \<Rightarrow> bool) \<Rightarrow> string \<Rightarrow> string \<Rightarrow> string" where
  "replace_runs n P r [] = []"
| "replace_runs n P r (c # cs) =
     (if P c then
        (if n \<le> Suc (length (takeWhile P cs)) then r else c # takeWhile P cs)
          @ replace_runs n P r (dropWhile P cs)
      else c # replace_runs n P r cs)"
  by pat_completeness auto
termination
  by (relation "measure (\<lambda>(n, P, r, s). length s)")
     (auto simp: length_dropWhile_le less_Suc_eq_le)

text \<open>The class a regular expression writes as backslash-w: letters, digits, underscore.\<close>

definition is_word :: "char \<Rightarrow> bool" where
  "is_word c =
     (let n = (of_char c :: nat)
      in (48 \<le> n \<and> n \<le> 57) \<or> (65 \<le> n \<and> n \<le> 90) \<or> (97 \<le> n \<and> n \<le> 122) \<or> n = 95)"

definition slugify :: "string \<Rightarrow> string" where
  "slugify str =
     replace_runs 2 (\<lambda>c. c = CHR ''-'') ''-''
       (replace_runs 1 (\<lambda>c. \<not> (is_word c \<or> c = CHR ''-'')) []
          (replace_runs 1 is_space ''-'' (toLowerCase (trim str))))"

text \<open>
  The value \<open>validateProductPayload\<close> builds: \<open>name\<close> and \<open>price\<close> are set whenever the
  payload is valid, every other field only when the payload gives it. The validator returns
  the list of errors (\<open>Inl\<close>) or the value (\<open>Inr\<close>); \<open>None\<close> is the TypeError of
  \<open>Number\<close> on a price or a stock that has no primitive.
\<close>

record product_value =
  v_name :: string
  v_price :: jsnum
  v_description :: "string option"
  v_image :: "string option"
  v_stock :: "jsnum option"
  v_category :: "string option"
  v_slug :: "string option"

text \<open>\<open>x && typeof x === "string"\<close>, then a function of the string.\<close>

definition string_field :: "(string \<Rightarrow> string) \<Rightarrow> json option \<Rightarrow> string option" where
  "string_field f v = map_option f (nonempty_string v)"

definition validateProductPayload :: "json \<Rightarrow> (string list + product_value) option" where
  "validateProductPayload b =
     (if \<not> truthy b \<or> \<not> is_object b then Some (Inl [''Invalid JSON payload''])
      else if (case get_prop b ''price'' of Some v \<Rightarrow> throws_to_primitive v | None \<Rightarrow> False)
              \<or> (case get_prop b ''stock'' of Some v \<Rightarrow> throws_to_primitive v | None \<Rightarrow> False)
      then None
      else
        (let name_ok = (case nonempty_string (get_prop b ''name'') of
                          None \<Rightarrow> False
                        | Some n \<Rightarrow> \<not> length (trim n) < 1);
             price_ok = (case get_prop b ''price'' of
                           None \<Rightarrow> False
                         | Some v \<Rightarrow> v \<noteq> JNull \<and> \<not> isNaN (to_number v));
             stock_ok = (case get_prop b ''stock'' of
                           None \<Rightarrow> True
                         | Some v \<Rightarrow> \<not> (isNaN (to_number v) \<or> \<not> isFinite (to_number v)));
             errors = (if name_ok then [] else [''name is required and must be a non-empty string''])
                    @ (if price_ok then [] else [''price is required and must be a number''])
                    @ (if stock_ok then [] else [''stock must be a number''])
         in if length errors > 0 then Some (Inl errors)
            else Some (Inr \<lparr>v_name = trim (the (nonempty_string (get_prop b ''name''))),
                            v_price = to_number (the (get_prop b ''price'')),
                            v_description = string_field trim (get_prop b ''description''),
                            v_image = string_field trim (get_prop b ''image''),
                            v_stock = map_option to_number (get_prop b ''stock''),
                            v_category = string_field trim (get_prop b ''category''),
                            v_slug = string_field slugify (get_prop b ''slug'')\<rparr>)))"

text \<open>The object literal \<open>newProduct\<close>, each optional field with its \<open>??\<close> default.\<close>

definition newProduct :: "runtime \<Rightarrow> product_value \<Rightarrow> obj" where
  "newProduct rt v =
     [(''id'', JStr (random_uuid rt)),
      (''name'', JStr (v_name v)),
      (''description'', JStr (case v_description v of Some d \<Rightarrow> d | None \<Rightarrow> [])),
      (''price'', JNum (v_price v)),
      (''image'', (case v_image v of Some i \<Rightarrow> JStr i | None \<Rightarrow> JNull)),
      (''stock'', JNum (case v_stock v of Some n \<Rightarrow> n | None \<Rightarrow> Fin 0)),
      (''category'', JStr (case v_category v of Some c \<Rightarrow> c | None \<Rightarrow> ''uncategorized'')),
      (''slug'', JStr (case v_slug v of Some g \<Rightarrow> g | None \<Rightarrow> slugify (v_name v))),
      (''createdAt'', JStr (now_iso rt)),
      (''updatedAt'', JStr (now_iso rt))]"

text \<open>
  What \<open>JSON.stringify\<close> writes and \<open>JSON.parse\<close> reads back: a number that is not
  finite becomes null.
\<close>

fun file_json :: "json \<Rightarrow> json" where
  "file_json (JNum n) = (if isFinite n then JNum n else JNull)"
| "file_json (JArr xs) = JArr (map file_json xs)"
| "file_json (JObj kvs) = JObj (map (\<lambda>kv. (fst kv, file_json (snd kv))) kvs)"
| "file_json v = v"

definition stored_product :: "obj \<Rightarrow> obj" where
  "stored_product p = map (\<lambda>kv. (fst kv, file_json (snd kv))) p"

text \<open>
  \<open>POST /api/products\<close> on the file store (the array of product objects in
  \<open>data/products.json\<close>): the new product goes to the front and the array is written
  back. With a database client the same fields go to \<open>prisma.product.create\<close>.
\<close>

definition POST_products :: "runtime \<Rightarrow> obj list \<Rightarrow> json \<Rightarrow> response \<times> obj list" where
  "POST_products rt file b =
     (case validateProductPayload b of
        None \<Rightarrow> (\<lparr>status = 500, body = JObj [(''error'', JStr ''Internal Server Error'')]\<rparr>, file)
      | Some (Inl errors) \<Rightarrow>
          (\<lparr>status = 400, body = JObj [(''errors'', JArr (map JStr errors))]\<rparr>, file)
      | Some (Inr v) \<Rightarrow>
          (\<lparr>status = 201, body = JObj [(''data'', JObj (newProduct rt v))]\<rparr>,
           stored_product (newProduct rt v) # file))"

section \<open>Products: the catalog query\<close>

text \<open>The parameters of the URL, each \<open>null\<close> (\<open>None\<close>) or a string.\<close>

record catalog_query =
  q_q :: "string option"
  q_search :: "string option"
  q_category :: "string option"
  q_page :: "string option"
  q_limit :: "string option"
  q_sort :: "string option"
  q_order :: "string option"

text \<open>\<open>get(k) || d\<close> on a parameter.\<close>

definition param_or :: "string option \<Rightarrow> string \<Rightarrow> string" where
  "param_or p d = (if param_given p then the p else d)"

definition search_of :: "catalog_query \<Rightarrow> string" where
  "search_of q = (if param_given (q_q q) then the (q_q q) else param_or (q_search q) [])"

text \<open>\<open>Math.max(1, Number(get("page") || 1))\<close>.\<close>

definition page_of :: "catalog_query \<Rightarrow> jsnum" where
  "page_of q = Math_max (Fin 1) (if param_given (q_page q) then js_Number (the (q_page q)) else Fin 1)"

text \<open>\<open>Math.min(100, Math.max(1, Number(get("limit") || 20)))\<close>.\<close>

definition limit_of :: "catalog_query \<Rightarrow> jsnum" where
  "limit_of q =
     Math_min (Fin 100)
       (Math_max (Fin 1) (if param_given (q_limit q) then js_Number (the (q_limit q)) else Fin 20))"

definition sort_of :: "catalog_query \<Rightarrow> string" where
  "sort_of q = param_or (q_sort q) ''createdAt''"

definition order_of :: "catalog_query \<Rightarrow> string" where
  "order_of q = toLowerCase (param_or (q_order q) ''desc'')"

text \<open>
  The string of a value whose conversion does not throw, as \<open>join\<close> makes it for an
  element that is not null.
\<close>

fun join :: "string \<Rightarrow> string list \<Rightarrow> string" where
  "join sep [] = []"
| "join sep [x] = x"
| "join sep (x # y # r) = x @ sep @ join sep (y # r)"

definition num_string :: "runtime \<Rightarrow> jsnum \<Rightarrow> string" where
  "num_string rt n =
     (case n of Fin r \<Rightarrow> number_to_string rt r | NaN \<Rightarrow> ''NaN''
      | PosInf \<Rightarrow> ''Infinity'' | NegInf \<Rightarrow> ''-Infinity'')"

fun js_to_string :: "runtime \<Rightarrow> json \<Rightarrow> string" where
  "js_to_string rt JNull = ''null''"
| "js_to_string rt (JBool b) = (if b then ''true'' else ''false'')"
| "js_to_string rt (JNum n) = num_string rt n"
| "js_to_string rt (JStr s) = s"
| "js_to_string rt (JObj _) = ''[object Object]''"
| "js_to_string rt (JArr xs) = join '','' (map (\<lambda>x. if x = JNull then [] else js_to_string rt x) xs)"

definition array_join :: "runtime \<Rightarrow> string \<Rightarrow> json list \<Rightarrow> string" where
  "array_join rt sep xs = join sep (map (\<lambda>x. if x = JNull then [] else js_to_string rt x) xs)"

text \<open>
  \<open>v && v.toLowerCase().includes(s)\<close>: \<open>None\<close> is the TypeError of a truthy value that is
  not a string.
\<close>

definition lower_has :: "json option \<Rightarrow> string \<Rightarrow> bool option" where
  "lower_has v s =
     (case v of
        None \<Rightarrow> Some False
      | Some x \<Rightarrow>
          if \<not> truthy x then Some False
          else (case x of JStr t \<Rightarrow> Some (str_includes (toLowerCase t) s) | _ \<Rightarrow> None))"

text \<open>
  The two tests on the category; \<open>None\<close> is the TypeError of \<open>join\<close> on an element
  that has no primitive.
\<close>

definition category_has :: "runtime \<Rightarrow> json option \<Rightarrow> string \<Rightarrow> bool option" where
  "category_has rt v s =
     (case v of
        Some (JStr c) \<Rightarrow> Some (str_includes (toLowerCase c) s)
      | Some (JArr xs) \<Rightarrow>
          if \<exists>x \<in> set xs. throws_to_primitive x then None
          else Some (str_includes (toLowerCase (array_join rt '' '' xs)) s)
      | _ \<Rightarrow> Some False)"

text \<open>The callback of the search filter, its four tests from left to right.\<close>

definition matches_search :: "runtime \<Rightarrow> string \<Rightarrow> obj \<Rightarrow> bool option" where
  "matches_search rt s p =
     (case lower_has (map_of p ''name'') s of
        None \<Rightarrow> None
      | Some True \<Rightarrow> Some True
      | Some False \<Rightarrow>
          (case lower_has (map_of p ''description'') s of
             None \<Rightarrow> None
           | Some True \<Rightarrow> Some True
           | Some False \<Rightarrow> category_has rt (map_of p ''category'') s))"

definition matches_category :: "string \<Rightarrow> obj \<Rightarrow> bool" where
  "matches_category c p =
     (case map_of p ''category'' of
        Some (JArr xs) \<Rightarrow> \<exists>x \<in> set xs. strict_eq x (JStr c)
      | Some v \<Rightarrow> strict_eq v (JStr c)
      | None \<Rightarrow> False)"

text \<open>\<open>filter\<close> with a callback that may throw: the first throw ends it.\<close>

fun filter_opt :: "('a \<Rightarrow> bool option) \<Rightarrow> 'a list \<Rightarrow> 'a list option" where
  "filter_opt f [] = Some []"
| "filter_opt f (x # xs) =
     (case f x of
        None \<Rightarrow> None
      | Some keep \<Rightarrow>
          (case filter_opt f xs of
             None \<Rightarrow> None
           | Some r \<Rightarrow> Some (if keep then x # r else r)))"

text \<open>
  \<open>Number(v)\<close> on what \<open>a[sort]\<close> gave: a function or the prototype prints as a text
  that is no numeric literal; \<open>None\<close> is the TypeError of a value that has no primitive.
\<close>

fun number_of :: "looked_up \<Rightarrow> jsnum option" where
  "number_of (Own v) = (if throws_to_primitive v then None else Some (to_number v))"
| "number_of Inherited = Some NaN"
| "number_of Undefined = Some NaN"

definition sub_numbers :: "jsnum option \<Rightarrow> jsnum option \<Rightarrow> jsnum option" where
  "sub_numbers x y =
     (case (x, y) of (Some m, Some n) \<Rightarrow> Some (num_sub m n) | _ \<Rightarrow> None)"

text \<open>
  The comparator of \<open>filtered.sort\<close>. The sort key comes from the request, so \<open>a[sort]\<close>
  is read with \<open>read_key\<close>. A value read from the file or inherited from the prototype is
  never a \<open>Date\<close>, so the branch after the strings is the numeric one.
\<close>

definition compare_products ::
  "runtime \<Rightarrow> string \<Rightarrow> string \<Rightarrow> obj \<Rightarrow> obj \<Rightarrow> jsnum option" where
  "compare_products rt srt ord a b =
     (let aVal = read_key a srt; bVal = read_key b srt
      in if aVal = Undefined \<and> bVal = Undefined then Some (Fin 0)
         else if aVal = Undefined then Some (if ord = ''asc'' then Fin (- 1) else Fin 1)
         else if bVal = Undefined then Some (if ord = ''asc'' then Fin 1 else Fin (- 1))
         else
           (case (aVal, bVal) of
              (Own (JStr x), Own (JStr y)) \<Rightarrow>
                Some (if ord = ''asc'' then locale_compare rt x y else locale_compare rt y x)
            | _ \<Rightarrow>
                (if ord = ''asc'' then sub_numbers (number_of aVal) (number_of bVal)
                 else sub_numbers (number_of bVal) (number_of aVal))))"

text \<open>
  \<open>Array.prototype.sort\<close> is stable and puts \<open>a\<close> after \<open>b\<close> when the comparator is
  positive on \<open>(a, b)\<close>; it is modelled by the stable insertion sort, which is the result
  of every engine when the comparator is consistent. On a comparator that is not (NaN among
  numbers, or a collation that is not an order), the language leaves the order to the
  engine, and the insertion sort is one of the orders it allows. A comparator that throws
  (\<open>None\<close>) ends the sort with its error.
\<close>

fun insert_by :: "('a \<Rightarrow> 'a \<Rightarrow> jsnum option) \<Rightarrow> 'a \<Rightarrow> 'a list \<Rightarrow> 'a list option" where
  "insert_by cmp x [] = Some [x]"
| "insert_by cmp x (y # ys) =
     (case cmp x y of
        None \<Rightarrow> None
      | Some c \<Rightarrow>
          if num_lt (Fin 0) c then map_option (\<lambda>r. y # r) (insert_by cmp x ys)
          else Some (x # y # ys))"

fun sort_by :: "('a \<Rightarrow> 'a \<Rightarrow> jsnum option) \<Rightarrow> 'a list \<Rightarrow> 'a list option" where
  "sort_by cmp [] = Some []"
| "sort_by cmp (x # xs) =
     (case sort_by cmp xs of None \<Rightarrow> None | Some ys \<Rightarrow> insert_by cmp x ys)"

text \<open>
  \<open>xs.slice(a, b)\<close>: each bound is truncated to an integer (NaN to 0), counted from the
  end when negative, and clamped to the length.
\<close>

definition clamp_index :: "nat \<Rightarrow> jsnum \<Rightarrow> nat" where
  "clamp_index len n =
     (case n of
        NaN \<Rightarrow> 0
      | PosInf \<Rightarrow> len
      | NegInf \<Rightarrow> 0
      | Fin r \<Rightarrow>
          (let i = (if 0 \<le> r then \<lfloor>r\<rfloor> else \<lceil>r\<rceil>)
           in if i < 0 then nat (max (int len + i) 0) else min (nat i) len))"

definition js_slice :: "'a list \<Rightarrow> jsnum \<Rightarrow> jsnum \<Rightarrow> 'a list" where
  "js_slice xs a b =
     (let k = clamp_index (length xs) a; f = clamp_index (length xs) b
      in take (f - k) (drop k xs))"

text \<open>The three stages on the file store: filter, sort, paginate.\<close>

definition filter_products :: "runtime \<Rightarrow> catalog_query \<Rightarrow> obj list \<Rightarrow> obj list option" where
  "filter_products rt q file =
     (case (if search_of q \<noteq> []
            then filter_opt (matches_search rt (toLowerCase (search_of q))) file
            else Some file) of
        None \<Rightarrow> None
      | Some found \<Rightarrow>
          Some (if param_given (q_category q)
                then filter (matches_category (the (q_category q))) found
                else found))"

definition GET_products :: "runtime \<Rightarrow> obj list \<Rightarrow> catalog_query \<Rightarrow> response" where
  "GET_products rt file q =
     (case filter_products rt q file of
        None \<Rightarrow> \<lparr>status = 500, body = JObj [(''error'', JStr ''Internal Server Error'')]\<rparr>
      | Some filtered \<Rightarrow>
          (case sort_by (compare_products rt (sort_of q) (order_of q)) filtered of
             None \<Rightarrow> \<lparr>status = 500, body = JObj [(''error'', JStr ''Internal Server Error'')]\<rparr>
           | Some ordered \<Rightarrow>
               (let start = num_mul (num_sub (page_of q) (Fin 1)) (limit_of q);
                    paged = js_slice ordered start (num_add start (limit_of q))
                in \<lparr>status = 200,
                    body = JObj [(''data'', JArr (map JObj paged)),
                                 (''meta'', JObj [(''total'', JNum (Fin (of_nat (length ordered)))),
                                                  (''page'', JNum (page_of q)),
                                                  (''limit'', JNum (limit_of q))])]\<rparr>)))"

section \<open>Notions used to state the properties\<close>

text \<open>
  The product with a given identifier (the identifier is the primary key of the table, so
  the properties below are stated for stores in which the identifiers are distinct), the
  map \<open>productsById\<close> a request fetches, and the total quantity a request orders of a
  product.
\<close>

definition product_by_id :: "store \<Rightarrow> string \<Rightarrow> product_row option" where
  "product_by_id s pid = find (\<lambda>p. p_id p = pid) (products s)"

definition fetched :: "store \<Rightarrow> order_item_request list \<Rightarrow> string \<Rightarrow> product_row option" where
  "fetched s its =
     Map_of_entries (map (\<lambda>p. (p_id p, p)) (find_products s (remdups (map productId its))))"

definition ordered_quantity :: "order_item_request list \<Rightarrow> string \<Rightarrow> rat" where
  "ordered_quantity its pid = sum_list (map quantity (filter (\<lambda>i. productId i = pid) its))"

text \<open>
  What an item of a payload asks for, read from the payload itself: the product, the
  quantity, and the explicit price when the item gives one.
\<close>

definition item_productId :: "json \<Rightarrow> string" where
  "item_productId it = (case get_prop it ''productId'' of Some (JStr p) \<Rightarrow> p | _ \<Rightarrow> [])"

definition item_quantity :: "json \<Rightarrow> rat" where
  "item_quantity it = (case get_prop it ''quantity'' of Some (JNum (Fin n)) \<Rightarrow> n | _ \<Rightarrow> 0)"

definition explicit_price :: "json \<Rightarrow> rat option" where
  "explicit_price it = (case get_prop it ''price'' of Some (JNum (Fin x)) \<Rightarrow> Some x | _ \<Rightarrow> None)"

definition requested :: "json \<Rightarrow> order_item_request" where
  "requested it =
     \<lparr>productId = item_productId it, quantity = item_quantity it, price = explicit_price it\<rparr>"

text \<open>
  The price the specification records for an item of the payload: its explicit price when
  given, else the price of the product in the catalog, else 0.
\<close>

definition recorded_price :: "store \<Rightarrow> json \<Rightarrow> rat" where
  "recorded_price s it =
     (case explicit_price it of
        Some x \<Rightarrow> x
      | None \<Rightarrow>
          (case product_by_id s (item_productId it) of
             Some pr \<Rightarrow> (case p_price pr of Some c \<Rightarrow> c | None \<Rightarrow> 0)
           | None \<Rightarrow> 0))"

text \<open>
  What the specification says of a product after an order of the items \<open>its\<close>: untracked
  or not referenced, it is unchanged; tracked and referenced, its stock is lower by the total
  quantity ordered of it.
\<close>

definition stock_after :: "order_item_request list \<Rightarrow> product_row \<Rightarrow> product_row" where
  "stock_after its p =
     (case p_stock p of
        None \<Rightarrow> p
      | Some a \<Rightarrow>
          if p_id p \<in> productId ` set its
          then p\<lparr>p_stock := Some (a - ordered_quantity its (p_id p))\<rparr>
          else p)"

text \<open>What the loop of the transaction does to a product, in the terms of the code.\<close>

definition tracked_by :: "(string \<Rightarrow> product_row option) \<Rightarrow> string \<Rightarrow> bool" where
  "tracked_by byId pid = (case byId pid of Some pr \<Rightarrow> p_stock pr \<noteq> None | None \<Rightarrow> False)"

definition decremented ::
  "(string \<Rightarrow> product_row option) \<Rightarrow> order_item_request list \<Rightarrow> string \<Rightarrow> rat" where
  "decremented byId its pid =
     sum_list (map quantity (filter (\<lambda>i. productId i = pid \<and> tracked_by byId pid) its))"

definition lower_stock :: "rat \<Rightarrow> product_row \<Rightarrow> product_row" where
  "lower_stock d p = p\<lparr>p_stock := map_option (\<lambda>x. x - d) (p_stock p)\<rparr>"


text \<open>The keys of the objects a response shows for a user.\<close>

definition has_password :: "json \<Rightarrow> bool" where
  "has_password v = (case v of JObj kvs \<Rightarrow> ''password'' \<in> fst ` set kvs | _ \<Rightarrow> False)"

text \<open>
  The user objects a response of the users route shows: the body, or its elements when it is
  the array of all users; for a deletion, the body and its \<open>user\<close> property.
\<close>

definition users_in_body :: "json \<Rightarrow> json list" where
  "users_in_body b = (case b of JArr xs \<Rightarrow> xs | _ \<Rightarrow> [b])"

definition user_of_deletion :: "json \<Rightarrow> json list" where
  "user_of_deletion b = (case get_prop b ''user'' of Some u \<Rightarrow> [b, u] | None \<Rightarrow> [b])"

text \<open>
  The \<open>user\<close> properties of the orders in a response of the orders route, whose
  \<open>data\<close> is an order or an array of orders.
\<close>

definition user_of_order :: "json \<Rightarrow> json list" where
  "user_of_order x = (case get_prop x ''user'' of Some u \<Rightarrow> [u] | None \<Rightarrow> [])"

definition order_users :: "response \<Rightarrow> json list" where
  "order_users r =
     (case get_prop (body r) ''data'' of
        None \<Rightarrow> []
      | Some d \<Rightarrow> concat (map user_of_order (case d of JArr os \<Rightarrow> os | _ \<Rightarrow> [d])))"

definition minimal_user :: "json \<Rightarrow> bool" where
  "minimal_user u = (case u of JObj kvs \<Rightarrow> map fst kvs = [''id'', ''name'', ''email''] | _ \<Rightarrow> False)"

text \<open>
  A list in which every element with the property stands before every element without it.
\<close>

fun partitioned :: "('a \<Rightarrow> bool) \<Rightarrow> 'a list \<Rightarrow> bool" where
  "partitioned P [] = True"
| "partitioned P (x # xs) = (if P x then partitioned P xs else list_all (\<lambda>y. \<not> P y) xs)"

text \<open>A record that lacks the sort key: reading the key gives \<open>undefined\<close>.\<close>

definition lacks_key :: "string \<Rightarrow> obj \<Rightarrow> bool" where
  "lacks_key k p = (read_key p k = Undefined)"

text \<open>
  The slug of a name in the words of the specification: the name is lower-cased, white space
  becomes hyphens, the characters that are neither word characters nor hyphens are stripped,
  and repeated hyphens are collapsed into one.
\<close>

fun collapse_hyphens :: "string \<Rightarrow> string" where
  "collapse_hyphens (a # b # r) =
     (if a = CHR ''-'' \<and> b = CHR ''-'' then collapse_hyphens (b # r)
      else a # collapse_hyphens (b # r))"
| "collapse_hyphens s = s"

definition slugified :: "string \<Rightarrow> string" where
  "slugified name =
     collapse_hyphens
       (filter (\<lambda>c. is_word c \<or> c = CHR ''-'')
          (map (\<lambda>c. if is_space c then CHR ''-'' else c) (map lower_char name)))"

text \<open>A record whose value of the sort key, if it has one, converts to a number.\<close>

definition key_converts :: "string \<Rightarrow> obj \<Rightarrow> bool" where
  "key_converts k p = (case read_key p k of Own v \<Rightarrow> \<not> throws_to_primitive v | _ \<Rightarrow> True)"

text \<open>What a slug is made of: lower-case letters, digits, underscores and hyphens.\<close>

definition slug_char :: "char \<Rightarrow> bool" where
  "slug_char c = (c = CHR ''-'' \<or> (is_word c \<and> \<not> is_upper c))"

text \<open>What a response of the catalog query shows: a field of \<open>meta\<close>, the items of the page.\<close>

definition meta_of :: "response \<Rightarrow> string \<Rightarrow> json option" where
  "meta_of r k = (case get_prop (body r) ''meta'' of Some m \<Rightarrow> get_prop m k | None \<Rightarrow> None)"

definition page_items :: "response \<Rightarrow> json list" where
  "page_items r = (case get_prop (body r) ''data'' of Some (JArr xs) \<Rightarrow> xs | _ \<Rightarrow> [])"

section \<open>Example data\<close>

definition demo_runtime :: runtime where
  "demo_runtime =
     \<lparr>number_to_string = (\<lambda>r. show_nat (nat \<lfloor>r\<rfloor>)),
      engine_error = (\<lambda>place. ''TypeError at '' @ place),
      sha256_hex = (\<lambda>s. ''sha256:'' @ s),
      random_uuid = ''uuid-1'',
      now_iso = ''2024-01-01T00:00:00.000Z'',
      now_ms = 1000,
      locale_compare = (\<lambda>a b. Fin 0)\<rparr>"

definition demo_store :: store where
  "demo_store =
     \<lparr>users = [\<lparr>u_id = ''u1'', u_name = Some ''Ann'', u_email = ''ann@example.org'',
                u_password = ''5e88''\<rparr>],
      products = [\<lparr>p_id = ''p1'', p_name = ''Pen'', p_price = Some 20, p_stock = Some 5\<rparr>,
                  \<lparr>p_id = ''p2'', p_name = ''Ink'', p_price = None, p_stock = None\<rparr>],
      orders = [],
      order_items = [],
      next_order_id = 1\<rparr>"

definition order_payload :: "string \<Rightarrow> (string \<times> rat) list \<Rightarrow> rat \<Rightarrow> json" where
  "order_payload uid its t =
     JObj [(''userId'', JStr uid),
           (''items'', JArr (map (\<lambda>(pid, n). JObj [(''productId'', JStr pid),
                                                     (''quantity'', JNum (Fin n))]) its)),
           (''total'', JNum (Fin t))]"

text \<open>A payload whose first item gives its own price, and a store with two tracked products.\<close>

definition demo_priced_payload :: json where
  "demo_priced_payload =
     JObj [(''userId'', JStr ''u1''),
           (''items'', JArr [JObj [(''productId'', JStr ''p1''), (''quantity'', JNum (Fin 2)),
                                   (''price'', JNum (Fin 15))],
                             JObj [(''productId'', JStr ''p1''), (''quantity'', JNum (Fin 1))],
                             JObj [(''productId'', JStr ''p2''), (''quantity'', JNum (Fin 1))]]),
           (''total'', JNum (Fin 50))]"

definition demo_tracked_store :: store where
  "demo_tracked_store =
     \<lparr>users = [\<lparr>u_id = ''u1'', u_name = Some ''Ann'', u_email = ''ann@example.org'',
                u_password = ''5e88''\<rparr>],
      products = [\<lparr>p_id = ''p1'', p_name = ''Pen'', p_price = Some 20, p_stock = Some 5\<rparr>,
                  \<lparr>p_id = ''p3'', p_name = ''Cap'', p_price = Some 7, p_stock = Some 3\<rparr>],
      orders = [],
      order_items = [],
      next_order_id = 1\<rparr>"

definition demo_memory :: memory where
  "demo_memory =
     snd (users_POST demo_runtime []
            (JObj [(''email'', JStr ''ann@example.org''), (''password'', JStr ''secret'')]))"

definition demo_catalog :: "obj list" where
  "demo_catalog =
     [[(''name'', JStr ''a''), (''price'', JNum (Fin 3))],
      [(''name'', JStr ''b'')],
      [(''name'', JStr ''c''), (''price'', JNum (Fin 1))]]"

definition demo_query :: catalog_query where
  "demo_query =
     \<lparr>q_q = None, q_search = None, q_category = None, q_page = None, q_limit = None,
      q_sort = Some ''price'', q_order = Some ''asc''\<rparr>"

definition demo_product_payload :: json where
  "demo_product_payload = JObj [(''name'', JStr '' Red   Shoe! ''), (''price'', JStr ''12.5'')]"

section \<open>Properties of the order validator\<close>







lemma validated_items:
  "validateOrderPayload payload = Inr req \<Longrightarrow>
     \<exists>its. get_prop payload ''items'' = Some (JArr its) \<and> validate_items 0 its = Inr (items req)"
  by (auto simp: validateOrderPayload_def
      split: if_splits option.splits json.splits list.splits sum.splits jsnum.splits)

lemma validated_total:
  "validateOrderPayload payload = Inr req \<Longrightarrow>
     get_prop payload ''total'' = Some (JNum (Fin (total req)))"
  by (auto simp: validateOrderPayload_def
      split: if_splits option.splits json.splits list.splits sum.splits jsnum.splits)

lemma nonempty_string_SomeD:
  "nonempty_string v = Some x \<Longrightarrow> v = Some (JStr x) \<and> x \<noteq> []"
  by (cases v rule: nonempty_string.cases) (auto split: if_splits)

text \<open>
  An accepted item is the item of the payload: the validator keeps its product, its quantity
  and its explicit price, and the items of the request are those of the payload, in order.
\<close>

lemma validate_item_fields:
  assumes "validate_item idx it = Inr r"
  shows "r = requested it"
proof -
  from assms obtain pid where pid: "nonempty_string (get_prop it ''productId'') = Some pid"
    by (cases "nonempty_string (get_prop it ''productId'')")
       (simp_all add: validate_item_def split: if_splits)
  then have p: "item_productId it = pid"
    by (auto simp: item_productId_def dest!: nonempty_string_SomeD)
  from assms pid have ok: "is_object it" "\<not> quantity_invalid (get_prop it ''quantity'')"
    by (simp_all add: validate_item_def split: if_splits)
  then obtain n where n: "get_prop it ''quantity'' = Some (JNum (Fin n))"
    by (auto simp: quantity_invalid_def isFinite_def
        split: option.splits json.splits jsnum.splits)
  then have q: "item_quantity it = n" "finite_value (get_prop it ''quantity'') = n"
    by (simp_all add: item_quantity_def finite_value_def)
  from assms pid ok have
    "(case get_prop it ''price'' of
        None \<Rightarrow> Inr \<lparr>productId = pid, quantity = finite_value (get_prop it ''quantity''),
                       price = None\<rparr>
      | Some (JNum (Fin x)) \<Rightarrow>
          Inr \<lparr>productId = pid, quantity = finite_value (get_prop it ''quantity''),
               price = Some x\<rparr>
      | Some _ \<Rightarrow> Inl (price_error idx)) = Inr r"
    by (simp add: validate_item_def)
  then have "r = \<lparr>productId = pid, quantity = finite_value (get_prop it ''quantity''),
                   price = explicit_price it\<rparr>"
    by (auto simp: explicit_price_def split: option.splits json.splits jsnum.splits)
  with p q show ?thesis by (simp add: requested_def)
qed

lemma validate_items_fields: "validate_items k its = Inr rs \<Longrightarrow> rs = map requested its"
proof (induction its arbitrary: k rs)
  case Nil
  then show ?case by simp
next
  case (Cons a its)
  then show ?case
    by (auto split: sum.splits dest: validate_item_fields)
qed

lemma validated_request:
  assumes "validateOrderPayload payload = Inr req"
  shows "\<exists>its. get_prop payload ''items'' = Some (JArr its) \<and> items req = map requested its"
    and "get_prop payload ''userId'' = Some (JStr (userId req))"
proof -
  from validated_items[OF assms] validate_items_fields
  show "\<exists>its. get_prop payload ''items'' = Some (JArr its) \<and> items req = map requested its"
    by blast
  from assms show "get_prop payload ''userId'' = Some (JStr (userId req))"
    by (auto simp: validateOrderPayload_def
        split: if_splits option.splits json.splits list.splits sum.splits jsnum.splits
        dest!: nonempty_string_SomeD)
qed



section \<open>Properties of order creation\<close>

lemma map_of_rev_distinct: "distinct (map fst xs) \<Longrightarrow> map_of (rev xs) = map_of xs"
proof (induction xs)
  case Nil
  then show ?case by simp
next
  case (Cons x xs)
  then have "fst x \<notin> dom (map_of xs)" by (simp add: dom_map_of_conv_image_fst)
  then have "map_of xs (fst x) = None" by blast
  with Cons show ?case
    by (cases x) (auto simp: map_add_def fun_eq_iff split: option.splits)
qed

lemma map_of_keyed_filter:
  "map_of (map (\<lambda>p. (f p, p)) (filter (\<lambda>p. f p \<in> A) ps)) k =
     (if k \<in> A then find (\<lambda>p. f p = k) ps else None)"
  by (induction ps) auto

lemma find_Some_mem: "find P xs = Some x \<Longrightarrow> x \<in> set xs \<and> P x"
  by (induction xs) (auto split: if_splits)

lemma find_distinct_self:
  "distinct (map f xs) \<Longrightarrow> p \<in> set xs \<Longrightarrow> find (\<lambda>x. f x = f p) xs = Some p"
  by (induction xs) (auto simp: image_iff)

lemma fetched_lookup:
  assumes "distinct (map p_id (products s))"
  shows "fetched s its k = (if k \<in> productId ` set its then product_by_id s k else None)"
proof -
  have "distinct (map fst (map (\<lambda>p. (p_id p, p))
                    (find_products s (remdups (map productId its)))))"
    using assms by (simp add: find_products_def comp_def distinct_map_filter)
  then show ?thesis
    unfolding fetched_def Map_of_entries_def
    by (simp add: map_of_rev_distinct find_products_def map_of_keyed_filter product_by_id_def)
qed

lemma fetched_SomeD: "fetched s its k = Some pr \<Longrightarrow> p_id pr = k \<and> pr \<in> set (products s)"
proof -
  assume "fetched s its k = Some pr"
  then have "(k, pr) \<in> set (map (\<lambda>p. (p_id p, p))
                              (find_products s (remdups (map productId its))))"
    unfolding fetched_def Map_of_entries_def by (auto dest!: map_of_SomeD)
  then show ?thesis by (auto simp: find_products_def)
qed

text \<open>The checks pass exactly when every item, taken alone, has its product and is within
  the stock that was fetched for it.\<close>

lemma check_items_None_iff:
  "check_items rt byId its = None \<longleftrightarrow>
     (\<forall>item \<in> set its. \<exists>pr. byId (productId item) = Some pr \<and>
        (\<forall>a. p_stock pr = Some a \<longrightarrow> quantity item \<le> a))"
  by (induction its) (auto split: option.splits)

lemma check_items_split:
  assumes "\<forall>it \<in> set before. \<exists>pr. byId (productId it) = Some pr
              \<and> (\<forall>a. p_stock pr = Some a \<longrightarrow> quantity it \<le> a)"
  shows "check_items rt byId (before @ rest) = check_items rt byId rest"
  using assms by (induction before) (auto split: option.splits)

lemma lower_stock_twice: "lower_stock d (lower_stock e p) = lower_stock (e + d) p"
  by (cases "p_stock p") (simp_all add: lower_stock_def algebra_simps)

lemma lower_stock_zero: "lower_stock 0 p = p"
  by (cases "p_stock p") (simp_all add: lower_stock_def)

lemma p_id_lower_stock: "p_id (lower_stock d p) = p_id p"
  by (simp add: lower_stock_def)

lemma decrement_stock_lower:
  "products (decrement_stock pid q s) =
     map (\<lambda>p. lower_stock (if p_id p = pid then q else 0) p) (products s)"
  by (auto simp: decrement_stock_def lower_stock_def option.map_ident)

text \<open>The loop of the transaction, in one step: the rows it adds and the stock it lowers.\<close>

lemma create_items_Some:
  assumes "\<forall>item \<in> set its. \<exists>pr. byId (productId item) = Some pr \<and> p_id pr = productId item"
  shows "\<exists>s'. create_items byId oid its s = Some s'
           \<and> users s' = users s \<and> orders s' = orders s \<and> next_order_id s' = next_order_id s
           \<and> order_items s' = order_items s @
                map (\<lambda>item. \<lparr>oi_orderId = oid, oi_productId = productId item,
                             oi_quantity = quantity item,
                             oi_price = snapshot_price item (the (byId (productId item)))\<rparr>) its
           \<and> products s' = map (\<lambda>p. lower_stock (decremented byId its (p_id p)) p) (products s)"
  using assms
proof (induction its arbitrary: s)
  case Nil
  then show ?case by (simp add: decremented_def lower_stock_zero)
next
  case (Cons item its)
  then obtain pr where pr: "byId (productId item) = Some pr" "p_id pr = productId item"
    by auto
  define s1 where "s1 = s\<lparr>order_items := order_items s @
                        [\<lparr>oi_orderId = oid, oi_productId = productId item,
                          oi_quantity = quantity item, oi_price = snapshot_price item pr\<rparr>]\<rparr>"
  define s2 where
    "s2 = (if p_stock pr \<noteq> None then decrement_stock (p_id pr) (quantity item) s1 else s1)"
  have step: "create_items byId oid (item # its) s = create_items byId oid its s2"
    by (simp add: pr s1_def s2_def Let_def)
  have frame: "users s2 = users s" "orders s2 = orders s" "next_order_id s2 = next_order_id s"
     "order_items s2 = order_items s @ [\<lparr>oi_orderId = oid, oi_productId = productId item,
                          oi_quantity = quantity item, oi_price = snapshot_price item pr\<rparr>]"
    by (simp_all add: s2_def s1_def decrement_stock_def)
  have prods: "products s2 =
      map (\<lambda>p. lower_stock (if p_id p = productId item \<and> tracked_by byId (productId item)
                             then quantity item else 0) p) (products s)"
    by (auto simp: s2_def s1_def decrement_stock_lower pr tracked_by_def lower_stock_zero)
  from Cons.prems
  have "\<forall>item \<in> set its. \<exists>pr. byId (productId item) = Some pr \<and> p_id pr = productId item"
    by simp
  from Cons.IH[OF this, of s2] obtain s' where s': "create_items byId oid its s2 = Some s'"
     "users s' = users s2" "orders s' = orders s2" "next_order_id s' = next_order_id s2"
     "order_items s' = order_items s2 @
                map (\<lambda>item. \<lparr>oi_orderId = oid, oi_productId = productId item,
                             oi_quantity = quantity item,
                             oi_price = snapshot_price item (the (byId (productId item)))\<rparr>) its"
     "products s' = map (\<lambda>p. lower_stock (decremented byId its (p_id p)) p) (products s2)"
    by blast
  have "products s' = map (\<lambda>p. lower_stock (decremented byId (item # its) (p_id p)) p) (products s)"
    unfolding s'(6) prods
    by (auto simp: lower_stock_twice p_id_lower_stock decremented_def)
  with step s' frame pr show ?case by simp
qed

lemma status_catch_response: "status (catch_response m) \<noteq> 201"
  by (simp add: catch_response_def json_error_def)

lemma status_check_items: "check_items rt byId its = Some r \<Longrightarrow> status r \<noteq> 201"
  by (induction its) (auto simp: json_error_def split: option.splits if_splits)

text \<open>The shape of every successful run, and the run under the preconditions.\<close>

lemma POST_orders_success:
  assumes "POST_orders rt s payload = (resp, s')" and "status resp = 201"
  shows "\<exists>req. validateOrderPayload payload = Inr req
           \<and> (\<exists>u \<in> set (users s). u_id u = userId req)
           \<and> check_items rt (fetched s (items req)) (items req) = None
           \<and> create_items (fetched s (items req)) (next_order_id s) (items req)
                (s\<lparr>orders := orders s @
                     [\<lparr>o_id = next_order_id s, o_userId = userId req, o_total = total req,
                       o_status = ''pending'', o_paymentMethod = paymentMethod req,
                       o_shipping = shipping req, o_createdAt = now_ms rt\<rparr>],
                   next_order_id := Suc (next_order_id s)\<rparr>) = Some s'"
proof (cases "validateOrderPayload payload")
  case (Inl m)
  with assms show ?thesis
    by (auto simp: POST_orders_def status_catch_response)
next
  case (Inr req)
  show ?thesis
  proof (cases "find (\<lambda>u. u_id u = userId req) (users s)")
    case None
    with Inr assms show ?thesis by (auto simp: POST_orders_def json_error_def)
  next
    case (Some u)
    then have u: "\<exists>u \<in> set (users s). u_id u = userId req"
      by (auto dest: find_Some_mem)
    show ?thesis
    proof (cases "check_items rt (fetched s (items req)) (items req)")
      case (Some r)
      with Inr \<open>find _ _ = Some u\<close> assms status_check_items[OF Some] show ?thesis
        by (auto simp: POST_orders_def fetched_def Let_def)
    next
      case None
      with Inr \<open>find _ _ = Some u\<close> assms u show ?thesis
        by (auto simp: POST_orders_def fetched_def Let_def status_catch_response
            split: option.splits)
    qed
  qed
qed

lemma POST_orders_ok:
  assumes "validateOrderPayload payload = Inr req"
    and "\<exists>u \<in> set (users s). u_id u = userId req"
    and "check_items rt (fetched s (items req)) (items req) = None"
  shows "\<exists>resp s'. POST_orders rt s payload = (resp, s') \<and> status resp = 201
           \<and> create_items (fetched s (items req)) (next_order_id s) (items req)
                (s\<lparr>orders := orders s @
                     [\<lparr>o_id = next_order_id s, o_userId = userId req, o_total = total req,
                       o_status = ''pending'', o_paymentMethod = paymentMethod req,
                       o_shipping = shipping req, o_createdAt = now_ms rt\<rparr>],
                   next_order_id := Suc (next_order_id s)\<rparr>) = Some s'"
proof -
  from assms(2) obtain u where u: "find (\<lambda>u. u_id u = userId req) (users s) = Some u"
    by (cases "find (\<lambda>u. u_id u = userId req) (users s)") (auto simp: find_None_iff)
  have "\<forall>item \<in> set (items req). \<exists>pr. fetched s (items req) (productId item) = Some pr
           \<and> p_id pr = productId item"
    using assms(3) unfolding check_items_None_iff by (blast dest: fetched_SomeD)
  from create_items_Some[OF this] obtain s' where
    "create_items (fetched s (items req)) (next_order_id s) (items req)
                (s\<lparr>orders := orders s @
                     [\<lparr>o_id = next_order_id s, o_userId = userId req, o_total = total req,
                       o_status = ''pending'', o_paymentMethod = paymentMethod req,
                       o_shipping = shipping req, o_createdAt = now_ms rt\<rparr>],
                   next_order_id := Suc (next_order_id s)\<rparr>) = Some s'"
    by blast
  with assms(1,3) u show ?thesis
    by (simp add: POST_orders_def fetched_def Let_def)
qed

text \<open>
  C1. For every payload that passes validation, with an existing user and with every item
  referencing an existing product and, when the product tracks its stock, asking for no more
  than that stock, \<open>POST /orders\<close> answers 201 and adds one order, of the user of the
  payload, whose status is \<open>pending\<close> and whose total is the total of the payload, and
  one order item for each item of the payload, in order, with the product and the quantity
  of that item, whose price is the explicit price of the item of the payload when it gives
  one, else the price of the product in the catalog, else 0.
\<close>

theorem order_created:
  assumes valid: "validateOrderPayload payload = Inr req"
    and user: "\<exists>u \<in> set (users s). u_id u = userId req"
    and keys: "distinct (map p_id (products s))"
    and prods: "\<forall>item \<in> set (items req). \<exists>pr \<in> set (products s). p_id pr = productId item
                  \<and> (\<forall>a. p_stock pr = Some a \<longrightarrow> quantity item \<le> a)"
  shows "\<exists>resp s' ord its. POST_orders rt s payload = (resp, s') \<and> status resp = 201
           \<and> orders s' = orders s @ [ord]
           \<and> o_status ord = ''pending''
           \<and> o_total ord = total req
           \<and> get_prop payload ''total'' = Some (JNum (Fin (o_total ord)))
           \<and> get_prop payload ''userId'' = Some (JStr (o_userId ord))
           \<and> get_prop payload ''items'' = Some (JArr its)
           \<and> items req = map requested its
           \<and> order_items s' = order_items s @
                map (\<lambda>it. \<lparr>oi_orderId = o_id ord, oi_productId = item_productId it,
                           oi_quantity = item_quantity it,
                           oi_price = (case explicit_price it of
                                         Some x \<Rightarrow> x
                                       | None \<Rightarrow>
                                           (case product_by_id s (item_productId it) of
                                              Some pr \<Rightarrow> (case p_price pr of Some c \<Rightarrow> c | None \<Rightarrow> 0)
                                            | None \<Rightarrow> 0))\<rparr>) its"
proof -
  let ?s0 = "s\<lparr>orders := orders s @
                     [\<lparr>o_id = next_order_id s, o_userId = userId req, o_total = total req,
                       o_status = ''pending'', o_paymentMethod = paymentMethod req,
                       o_shipping = shipping req, o_createdAt = now_ms rt\<rparr>],
                   next_order_id := Suc (next_order_id s)\<rparr>"
  from validated_request(1)[OF valid] obtain its where
    its: "get_prop payload ''items'' = Some (JArr its)" "items req = map requested its"
    by blast
  have look: "fetched s (items req) (productId item) = product_by_id s (productId item)"
    if "item \<in> set (items req)" for item
    using that by (simp add: fetched_lookup[OF keys])
  have found: "\<exists>pr. product_by_id s (productId item) = Some pr
                 \<and> (\<forall>a. p_stock pr = Some a \<longrightarrow> quantity item \<le> a)"
    if "item \<in> set (items req)" for item
  proof -
    from prods that obtain pr where pr: "pr \<in> set (products s)" "p_id pr = productId item"
      "\<forall>a. p_stock pr = Some a \<longrightarrow> quantity item \<le> a" by blast
    from find_distinct_self[OF keys pr(1)] pr show ?thesis
      by (auto simp: product_by_id_def)
  qed
  have chk: "check_items rt (fetched s (items req)) (items req) = None"
    unfolding check_items_None_iff using look found by simp
  from POST_orders_ok[OF valid user chk] obtain resp s' where
    post: "POST_orders rt s payload = (resp, s')" "status resp = 201"
    and cr: "create_items (fetched s (items req)) (next_order_id s) (items req) ?s0 = Some s'"
    by blast
  have "\<forall>item \<in> set (items req). \<exists>pr. fetched s (items req) (productId item) = Some pr
           \<and> p_id pr = productId item"
    using chk unfolding check_items_None_iff by (blast dest: fetched_SomeD)
  from create_items_Some[OF this, of "next_order_id s" ?s0] cr
  have res: "orders s' = orders s @
                     [\<lparr>o_id = next_order_id s, o_userId = userId req, o_total = total req,
                       o_status = ''pending'', o_paymentMethod = paymentMethod req,
                       o_shipping = shipping req, o_createdAt = now_ms rt\<rparr>]"
     "order_items s' = order_items s @
                map (\<lambda>item. \<lparr>oi_orderId = next_order_id s, oi_productId = productId item,
                             oi_quantity = quantity item,
                             oi_price = snapshot_price item
                                          (the (fetched s (items req) (productId item)))\<rparr>)
                    (items req)"
    by auto
  define byId where "byId = fetched s (items req)"
  let ?row = "\<lambda>item. \<lparr>oi_orderId = next_order_id s, oi_productId = productId item,
                          oi_quantity = quantity item,
                          oi_price = snapshot_price item (the (byId (productId item)))\<rparr>"
  let ?spec = "\<lambda>it. \<lparr>oi_orderId = next_order_id s, oi_productId = item_productId it,
               oi_quantity = item_quantity it,
               oi_price = (case explicit_price it of
                             Some x \<Rightarrow> x
                           | None \<Rightarrow>
                               (case product_by_id s (item_productId it) of
                                  Some pr \<Rightarrow> (case p_price pr of Some c \<Rightarrow> c | None \<Rightarrow> 0)
                                | None \<Rightarrow> 0))\<rparr>"
  have row: "?row (requested it) = ?spec it" if "it \<in> set its" for it
  proof -
    from that have mem: "requested it \<in> set (items req)" by (simp add: its(2))
    from found[OF mem] obtain pr where
      pr: "product_by_id s (item_productId it) = Some pr" by (auto simp: requested_def)
    from look[OF mem] pr have "byId (item_productId it) = Some pr"
      by (simp add: byId_def requested_def)
    with pr show ?thesis
      by (simp add: requested_def snapshot_price_def split: option.splits)
  qed
  have "map ?row (items req) = map ?row (map requested its)"
    by (simp only: its(2))
  also have "\<dots> = map (\<lambda>it. ?row (requested it)) its"
    by (simp only: map_map comp_def)
  also have "\<dots> = map ?spec its"
    by (rule map_cong[OF refl]) (rule row)
  finally have rows: "order_items s' = order_items s @ map ?spec its"
    using res(2) by (simp only: byId_def)
  let ?ord = "\<lparr>o_id = next_order_id s, o_userId = userId req, o_total = total req,
               o_status = ''pending'', o_paymentMethod = paymentMethod req,
               o_shipping = shipping req, o_createdAt = now_ms rt\<rparr>"
  have "POST_orders rt s payload = (resp, s') \<and> status resp = 201
           \<and> orders s' = orders s @ [?ord]
           \<and> o_status ?ord = ''pending''
           \<and> o_total ?ord = total req
           \<and> get_prop payload ''total'' = Some (JNum (Fin (o_total ?ord)))
           \<and> get_prop payload ''userId'' = Some (JStr (o_userId ?ord))
           \<and> get_prop payload ''items'' = Some (JArr its)
           \<and> items req = map requested its
           \<and> order_items s' = order_items s @
                map (\<lambda>it. \<lparr>oi_orderId = o_id ?ord, oi_productId = item_productId it,
                           oi_quantity = item_quantity it,
                           oi_price = (case explicit_price it of
                                         Some x \<Rightarrow> x
                                       | None \<Rightarrow>
                                           (case product_by_id s (item_productId it) of
                                              Some pr \<Rightarrow> (case p_price pr of Some c \<Rightarrow> c | None \<Rightarrow> 0)
                                            | None \<Rightarrow> 0))\<rparr>) its"
    using post res(1) rows validated_total[OF valid] validated_request(2)[OF valid] its
    by simp
  then show ?thesis by blast
qed

theorem order_created_witness:
  "\<exists>resp s'. POST_orders demo_runtime demo_store demo_priced_payload = (resp, s')
      \<and> status resp = 201
      \<and> map o_status (orders s') = [''pending'']
      \<and> map o_total (orders s') = [50]
      \<and> map oi_productId (order_items s') = [''p1'', ''p1'', ''p2'']
      \<and> map oi_quantity (order_items s') = [2, 1, 1]
      \<and> map oi_price (order_items s') = [15, 20, 0]"
proof -
  let ?req = "\<lparr>userId = ''u1'',
               items = [\<lparr>productId = ''p1'', quantity = 2, price = Some 15\<rparr>,
                        \<lparr>productId = ''p1'', quantity = 1, price = None\<rparr>,
                        \<lparr>productId = ''p2'', quantity = 1, price = None\<rparr>],
               shipping = None, paymentMethod = None, total = 50\<rparr>"
  have v: "validateOrderPayload demo_priced_payload = Inr ?req"
    by code_simp
  have u: "\<exists>u \<in> set (users demo_store). u_id u = userId ?req"
    by (simp add: demo_store_def)
  have k: "distinct (map p_id (products demo_store))"
    by (simp add: demo_store_def)
  have p: "\<forall>item \<in> set (items ?req). \<exists>pr \<in> set (products demo_store). p_id pr = productId item
              \<and> (\<forall>a. p_stock pr = Some a \<longrightarrow> quantity item \<le> a)"
    by (simp add: demo_store_def)
  from order_created[OF v u k p, of demo_runtime] obtain resp s' ord its where
    "POST_orders demo_runtime demo_store demo_priced_payload = (resp, s')"
    "status resp = 201" "orders s' = orders demo_store @ [ord]"
    "o_status ord = ''pending''" "o_total ord = total ?req"
    "get_prop demo_priced_payload ''items'' = Some (JArr its)"
    "order_items s' = order_items demo_store @
                map (\<lambda>it. \<lparr>oi_orderId = o_id ord, oi_productId = item_productId it,
                           oi_quantity = item_quantity it,
                           oi_price = (case explicit_price it of
                                         Some x \<Rightarrow> x
                                       | None \<Rightarrow>
                                           (case product_by_id demo_store (item_productId it) of
                                              Some pr \<Rightarrow> (case p_price pr of Some c \<Rightarrow> c | None \<Rightarrow> 0)
                                            | None \<Rightarrow> 0))\<rparr>) its"
    by blast
  then show ?thesis
    by (auto simp: demo_store_def demo_priced_payload_def product_by_id_def item_productId_def
        item_quantity_def explicit_price_def)
qed

lemma check_items_status:
  "check_items rt byId its = Some r \<Longrightarrow> status r = 400 \<or> status r = 404"
  by (induction its) (auto simp: json_error_def split: option.splits if_splits)

lemma catch_response_status:
  "status (catch_response m) = 400 \<or> status (catch_response m) = 500"
  by (simp add: catch_response_def json_error_def)

text \<open>
  C2, as the code has it. The checks run in order and the first failure answers: the
  validation of the payload, then the user, then the items one by one. For every item of a
  payload, if the product of the item has a tracked stock lower than the quantity the item
  asks for, no order is created: the store is unchanged and the answer is an error (400 or
  404 when the payload passes validation, 400 or 500 when it does not). The answer is the
  400 that names the product, the requested quantity and the available stock when the
  payload passes validation, the user exists and every item before it references an existing
  product and is within the tracked stock of that product.
\<close>

theorem insufficient_stock_rejected:
  assumes keys: "distinct (map p_id (products s))"
    and its: "get_prop payload ''items'' = Some (JArr its)"
    and it: "it \<in> set its"
    and pr: "pr \<in> set (products s)" "p_id pr = item_productId it"
    and short: "p_stock pr = Some available" "available < item_quantity it"
  shows "(\<exists>resp. POST_orders rt s payload = (resp, s)
            \<and> (status resp = 400 \<or> status resp = 404 \<or> status resp = 500))
    \<and> (validateOrderPayload payload = Inr req \<longrightarrow>
          (\<exists>resp. POST_orders rt s payload = (resp, s)
             \<and> (status resp = 400 \<or> status resp = 404)))
    \<and> (validateOrderPayload payload = Inr req
          \<and> (\<exists>u \<in> set (users s). get_prop payload ''userId'' = Some (JStr (u_id u)))
          \<and> its = before @ it # after
          \<and> (\<forall>x \<in> set before. \<exists>p \<in> set (products s). p_id p = item_productId x
                \<and> (\<forall>a. p_stock p = Some a \<longrightarrow> item_quantity x \<le> a))
        \<longrightarrow> POST_orders rt s payload =
              (\<lparr>status = 400,
                body = JObj [(''success'', JBool False),
                             (''error'', JStr (''Insufficient stock for product '' @ p_name pr
                                 @ '' ('' @ p_id pr @ ''). Requested ''
                                 @ number_to_string rt (item_quantity it) @ '', available ''
                                 @ number_to_string rt available @ ''.''))]\<rparr>, s))"
proof -
  have valid_case: "\<exists>resp. POST_orders rt s payload = (resp, s)
                      \<and> (status resp = 400 \<or> status resp = 404)"
    and first_case: "(\<exists>u \<in> set (users s). get_prop payload ''userId'' = Some (JStr (u_id u)))
          \<and> its = before @ it # after
          \<and> (\<forall>x \<in> set before. \<exists>p \<in> set (products s). p_id p = item_productId x
                \<and> (\<forall>a. p_stock p = Some a \<longrightarrow> item_quantity x \<le> a))
        \<longrightarrow> POST_orders rt s payload =
              (\<lparr>status = 400,
                body = JObj [(''success'', JBool False),
                             (''error'', JStr (''Insufficient stock for product '' @ p_name pr
                                 @ '' ('' @ p_id pr @ ''). Requested ''
                                 @ number_to_string rt (item_quantity it) @ '', available ''
                                 @ number_to_string rt available @ ''.''))]\<rparr>, s)"
    if valid: "validateOrderPayload payload = Inr r" for r
  proof -
    from validated_request(1)[OF valid] its have req: "items r = map requested its"
      by auto
    have look: "fetched s (items r) (productId x) = product_by_id s (productId x)"
      if "x \<in> set (items r)" for x
      using that by (simp add: fetched_lookup[OF keys])
    have mem: "requested it \<in> set (items r)"
      using it by (simp add: req)
    from look[OF mem] find_distinct_self[OF keys pr(1)] pr(2)
    have got: "fetched s (items r) (productId (requested it)) = Some pr"
      by (simp add: product_by_id_def requested_def)
    have q: "quantity (requested it) = item_quantity it"
      by (simp add: requested_def)
    show "\<exists>resp. POST_orders rt s payload = (resp, s) \<and> (status resp = 400 \<or> status resp = 404)"
    proof (cases "find (\<lambda>u. u_id u = userId r) (users s)")
      case None
      with valid show ?thesis by (simp add: POST_orders_def json_error_def)
    next
      case (Some u)
      have "check_items rt (fetched s (items r)) (items r) \<noteq> None"
      proof
        assume "check_items rt (fetched s (items r)) (items r) = None"
        then have "\<forall>item \<in> set (items r). \<exists>p. fetched s (items r) (productId item) = Some p
                     \<and> (\<forall>a. p_stock p = Some a \<longrightarrow> quantity item \<le> a)"
          by (simp only: check_items_None_iff)
        from bspec[OF this mem] got
        have "\<forall>a. p_stock pr = Some a \<longrightarrow> quantity (requested it) \<le> a" by simp
        with short q show False by simp
      qed
      then obtain c where c: "check_items rt (fetched s (items r)) (items r) = Some c"
        by blast
      with valid Some have "POST_orders rt s payload = (c, s)"
        by (simp add: POST_orders_def fetched_def Let_def)
      with check_items_status[OF c] show ?thesis by simp
    qed
    show "(\<exists>u \<in> set (users s). get_prop payload ''userId'' = Some (JStr (u_id u)))
          \<and> its = before @ it # after
          \<and> (\<forall>x \<in> set before. \<exists>p \<in> set (products s). p_id p = item_productId x
                \<and> (\<forall>a. p_stock p = Some a \<longrightarrow> item_quantity x \<le> a))
        \<longrightarrow> POST_orders rt s payload =
              (\<lparr>status = 400,
                body = JObj [(''success'', JBool False),
                             (''error'', JStr (''Insufficient stock for product '' @ p_name pr
                                 @ '' ('' @ p_id pr @ ''). Requested ''
                                 @ number_to_string rt (item_quantity it) @ '', available ''
                                 @ number_to_string rt available @ ''.''))]\<rparr>, s)"
    proof
      assume a: "(\<exists>u \<in> set (users s). get_prop payload ''userId'' = Some (JStr (u_id u)))
          \<and> its = before @ it # after
          \<and> (\<forall>x \<in> set before. \<exists>p \<in> set (products s). p_id p = item_productId x
                \<and> (\<forall>a. p_stock p = Some a \<longrightarrow> item_quantity x \<le> a))"
      with validated_request(2)[OF valid] have "\<exists>u \<in> set (users s). u_id u = userId r"
        by auto
      then obtain u where u: "find (\<lambda>u. u_id u = userId r) (users s) = Some u"
        by (cases "find (\<lambda>u. u_id u = userId r) (users s)") (auto simp: find_None_iff)
      from a have split: "items r = map requested before @ requested it # map requested after"
        by (simp add: req)
      have "\<forall>x \<in> set (map requested before). \<exists>p. fetched s (items r) (productId x) = Some p
                \<and> (\<forall>a. p_stock p = Some a \<longrightarrow> quantity x \<le> a)"
      proof
        fix x assume "x \<in> set (map requested before)"
        then obtain y where y: "y \<in> set before" "x = requested y" by auto
        with a obtain p where p: "p \<in> set (products s)" "p_id p = item_productId y"
          "\<forall>a. p_stock p = Some a \<longrightarrow> item_quantity y \<le> a" by blast
        from y split have "x \<in> set (items r)" by simp
        from look[OF this] find_distinct_self[OF keys p(1)] p y(2)
        show "\<exists>p. fetched s (items r) (productId x) = Some p
                \<and> (\<forall>a. p_stock p = Some a \<longrightarrow> quantity x \<le> a)"
          by (auto simp: product_by_id_def requested_def)
      qed
      from check_items_split[OF this]
      have c1: "check_items rt (fetched s (items r)) (items r)
              = check_items rt (fetched s (items r)) (requested it # map requested after)"
        by (simp add: split)
      from got short q
      have "check_items rt (fetched s (items r)) (requested it # map requested after)
          = Some (json_error 400 (insufficient_stock_error rt pr (item_quantity it) available))"
        by simp
      with c1 valid u show "POST_orders rt s payload =
                (\<lparr>status = 400,
                  body = JObj [(''success'', JBool False),
                               (''error'', JStr (''Insufficient stock for product '' @ p_name pr
                                   @ '' ('' @ p_id pr @ ''). Requested ''
                                   @ number_to_string rt (item_quantity it) @ '', available ''
                                   @ number_to_string rt available @ ''.''))]\<rparr>, s)"
        by (simp add: POST_orders_def fetched_def Let_def json_error_def
            insufficient_stock_error_def)
    qed
  qed
  have any: "\<exists>resp. POST_orders rt s payload = (resp, s)
            \<and> (status resp = 400 \<or> status resp = 404 \<or> status resp = 500)"
  proof (cases "validateOrderPayload payload")
    case (Inl m)
    then have "POST_orders rt s payload = (catch_response m, s)"
      by (simp add: POST_orders_def)
    with catch_response_status[of m] show ?thesis by auto
  next
    case (Inr r)
    from valid_case[OF this] show ?thesis by blast
  qed
  show ?thesis
  proof (intro conjI impI)
    show "\<exists>resp. POST_orders rt s payload = (resp, s)
            \<and> (status resp = 400 \<or> status resp = 404 \<or> status resp = 500)"
      by (rule any)
  next
    assume "validateOrderPayload payload = Inr req"
    then show "\<exists>resp. POST_orders rt s payload = (resp, s)
                 \<and> (status resp = 400 \<or> status resp = 404)"
      by (rule valid_case)
  next
    assume a: "validateOrderPayload payload = Inr req
          \<and> (\<exists>u \<in> set (users s). get_prop payload ''userId'' = Some (JStr (u_id u)))
          \<and> its = before @ it # after
          \<and> (\<forall>x \<in> set before. \<exists>p \<in> set (products s). p_id p = item_productId x
                \<and> (\<forall>a. p_stock p = Some a \<longrightarrow> item_quantity x \<le> a))"
    then have v: "validateOrderPayload payload = Inr req" by (rule conjunct1)
    from a have rest: "(\<exists>u \<in> set (users s). get_prop payload ''userId'' = Some (JStr (u_id u)))
          \<and> its = before @ it # after
          \<and> (\<forall>x \<in> set before. \<exists>p \<in> set (products s). p_id p = item_productId x
                \<and> (\<forall>a. p_stock p = Some a \<longrightarrow> item_quantity x \<le> a))"
      by (rule conjunct2)
    from first_case[OF v] rest
    show "POST_orders rt s payload =
              (\<lparr>status = 400,
                body = JObj [(''success'', JBool False),
                             (''error'', JStr (''Insufficient stock for product '' @ p_name pr
                                 @ '' ('' @ p_id pr @ ''). Requested ''
                                 @ number_to_string rt (item_quantity it) @ '', available ''
                                 @ number_to_string rt available @ ''.''))]\<rparr>, s)"
      by (rule mp)
  qed
qed

theorem insufficient_stock_rejected_witness:
  "POST_orders demo_runtime demo_store (order_payload ''u1'' [(''p2'', 1), (''p1'', 10)] 200)
     = (\<lparr>status = 400,
         body = JObj [(''success'', JBool False),
                      (''error'', JStr ''Insufficient stock for product Pen (p1). Requested 10, available 5.'')]\<rparr>,
        demo_store)"
proof -
  let ?payload = "order_payload ''u1'' [(''p2'', 1), (''p1'', 10)] 200"
  let ?req = "\<lparr>userId = ''u1'',
               items = [\<lparr>productId = ''p2'', quantity = 1, price = None\<rparr>,
                        \<lparr>productId = ''p1'', quantity = 10, price = None\<rparr>],
               shipping = None, paymentMethod = None, total = 200\<rparr>"
  let ?pen = "\<lparr>p_id = ''p1'', p_name = ''Pen'', p_price = Some 20, p_stock = Some 5\<rparr>"
  let ?i1 = "JObj [(''productId'', JStr ''p2''), (''quantity'', JNum (Fin 1))]"
  let ?i2 = "JObj [(''productId'', JStr ''p1''), (''quantity'', JNum (Fin 10))]"
  have v: "validateOrderPayload ?payload = Inr ?req"
    by code_simp
  have k: "distinct (map p_id (products demo_store))"
    by (simp add: demo_store_def)
  have its: "get_prop ?payload ''items'' = Some (JArr [?i1, ?i2])"
    by (simp add: order_payload_def)
  have it: "?i2 \<in> set [?i1, ?i2]"
    by simp
  have p1: "?pen \<in> set (products demo_store)"
    by (simp add: demo_store_def)
  have p2: "p_id ?pen = item_productId ?i2"
    by (simp add: item_productId_def)
  have s1: "p_stock ?pen = Some 5"
    by simp
  have s2: "5 < item_quantity ?i2"
    by (simp add: item_quantity_def)
  have rest: "(\<exists>u \<in> set (users demo_store). get_prop ?payload ''userId'' = Some (JStr (u_id u)))
          \<and> [?i1, ?i2] = [?i1] @ ?i2 # []
          \<and> (\<forall>x \<in> set [?i1]. \<exists>p \<in> set (products demo_store). p_id p = item_productId x
                \<and> (\<forall>a. p_stock p = Some a \<longrightarrow> item_quantity x \<le> a))"
    by (simp add: demo_store_def order_payload_def item_productId_def item_quantity_def)
  have n10: "number_to_string demo_runtime (item_quantity ?i2) = ''10''"
    by code_simp
  have n5: "number_to_string demo_runtime 5 = ''5''"
    by code_simp
  from insufficient_stock_rejected[OF k its it p1 p2 s1 s2, of demo_runtime ?req "[?i1]" "[]"]
  have "POST_orders demo_runtime demo_store ?payload =
          (\<lparr>status = 400,
            body = JObj [(''success'', JBool False),
                         (''error'', JStr (''Insufficient stock for product '' @ p_name ?pen
                             @ '' ('' @ p_id ?pen @ ''). Requested ''
                             @ number_to_string demo_runtime (item_quantity ?i2) @ '', available ''
                             @ number_to_string demo_runtime 5 @ ''.''))]\<rparr>, demo_store)"
    using v rest by blast
  then show ?thesis
    unfolding n10 n5 by simp
qed

text \<open>
  The claim as written, for every item whatever comes before its check, fails. In each of
  these payloads an item asks for 10 of \<open>p1\<close>, whose stock is 5, and the answer is not the
  400 that names \<open>p1\<close>: with an unknown user it is the 404 of the user; after an item
  whose product is unknown it is the 404 of that product; after an item that itself asks for
  more than the stock of its product it is the 400 of that other product; and with an
  invalid total it is the 400 of the total, which names no product.
\<close>

theorem insufficient_stock_counterexample:
  "product_by_id demo_store ''p1''
     = Some \<lparr>p_id = ''p1'', p_name = ''Pen'', p_price = Some 20, p_stock = Some 5\<rparr>
   \<and> POST_orders demo_runtime demo_store (order_payload ''missing'' [(''p1'', 10)] 200)
       = (json_error 404 ''User not found.'', demo_store)
   \<and> POST_orders demo_runtime demo_store (order_payload ''u1'' [(''p9'', 1), (''p1'', 10)] 200)
       = (json_error 404 ''Product not found: p9'', demo_store)
   \<and> product_by_id demo_tracked_store ''p1''
       = Some \<lparr>p_id = ''p1'', p_name = ''Pen'', p_price = Some 20, p_stock = Some 5\<rparr>
   \<and> POST_orders demo_runtime demo_tracked_store
         (order_payload ''u1'' [(''p3'', 7), (''p1'', 10)] 200)
       = (json_error 400 ''Insufficient stock for product Cap (p3). Requested 7, available 3.'',
          demo_tracked_store)
   \<and> POST_orders demo_runtime demo_store (order_payload ''u1'' [(''p1'', 10)] (- 1))
       = (json_error 400 ''Missing or invalid 'total'. Must be a non-negative number.'', demo_store)"
  by (intro conjI; code_simp)

text \<open>
  C3. After every successful creation (a 201), in a store whose product identifiers are
  distinct, every product is as the specification says: a tracked product referenced by the
  order has its stock lowered by exactly the total quantity ordered of it, and an untracked
  product or a product the order does not reference is unchanged.
\<close>

theorem stock_decremented:
  assumes post: "POST_orders rt s payload = (resp, s')" and ok: "status resp = 201"
    and keys: "distinct (map p_id (products s))"
  shows "\<exists>req. validateOrderPayload payload = Inr req
           \<and> products s' = map (stock_after (items req)) (products s)"
proof -
  let ?s0 = "\<lambda>req. s\<lparr>orders := orders s @
                     [\<lparr>o_id = next_order_id s, o_userId = userId req, o_total = total req,
                       o_status = ''pending'', o_paymentMethod = paymentMethod req,
                       o_shipping = shipping req, o_createdAt = now_ms rt\<rparr>],
                   next_order_id := Suc (next_order_id s)\<rparr>"
  from POST_orders_success[OF post ok] obtain req where
    valid: "validateOrderPayload payload = Inr req"
    and chk: "check_items rt (fetched s (items req)) (items req) = None"
    and cr: "create_items (fetched s (items req)) (next_order_id s) (items req) (?s0 req) = Some s'"
    by blast
  have "\<forall>item \<in> set (items req). \<exists>pr. fetched s (items req) (productId item) = Some pr
           \<and> p_id pr = productId item"
    using chk unfolding check_items_None_iff by (blast dest: fetched_SomeD)
  from create_items_Some[OF this, of "next_order_id s" "?s0 req"] cr
  have prods: "products s' =
      map (\<lambda>p. lower_stock (decremented (fetched s (items req)) (items req) (p_id p)) p)
          (products s)"
    by auto
  have "lower_stock (decremented (fetched s (items req)) (items req) (p_id p)) p
          = stock_after (items req) p" if p: "p \<in> set (products s)" for p
  proof (cases "p_stock p")
    case None
    then show ?thesis by (simp add: lower_stock_def stock_after_def)
  next
    case (Some a)
    show ?thesis
    proof (cases "p_id p \<in> productId ` set (items req)")
      case True
      then have "fetched s (items req) (p_id p) = Some p"
        using find_distinct_self[OF keys p]
        by (simp add: fetched_lookup[OF keys] product_by_id_def)
      then have "decremented (fetched s (items req)) (items req) (p_id p)
                   = ordered_quantity (items req) (p_id p)"
        by (simp add: decremented_def ordered_quantity_def tracked_by_def Some)
      with Some True show ?thesis by (simp add: lower_stock_def stock_after_def)
    next
      case False
      then have "filter (\<lambda>i. productId i = p_id p
                            \<and> tracked_by (fetched s (items req)) (p_id p)) (items req) = []"
        by (auto simp: filter_empty_conv image_iff)
      then have "decremented (fetched s (items req)) (items req) (p_id p) = 0"
        by (simp add: decremented_def)
      with Some False show ?thesis by (simp add: lower_stock_zero stock_after_def)
    qed
  qed
  with prods valid show ?thesis by simp
qed

theorem stock_decremented_witness:
  "map p_stock (products (snd (POST_orders demo_runtime demo_store
                                 (order_payload ''u1'' [(''p1'', 2), (''p2'', 1)] 40))))
     = [Some 3, None]"
proof -
  let ?payload = "order_payload ''u1'' [(''p1'', 2), (''p2'', 1)] 40"
  let ?req = "\<lparr>userId = ''u1'',
               items = [\<lparr>productId = ''p1'', quantity = 2, price = None\<rparr>,
                        \<lparr>productId = ''p2'', quantity = 1, price = None\<rparr>],
               shipping = None, paymentMethod = None, total = 40\<rparr>"
  have v: "validateOrderPayload ?payload = Inr ?req"
    by code_simp
  have run: "POST_orders demo_runtime demo_store ?payload
               = (fst (POST_orders demo_runtime demo_store ?payload),
                  snd (POST_orders demo_runtime demo_store ?payload))"
    by simp
  have ok: "status (fst (POST_orders demo_runtime demo_store ?payload)) = 201"
    by code_simp
  have k: "distinct (map p_id (products demo_store))"
    by (simp add: demo_store_def)
  from stock_decremented[OF run ok k] v
  have "products (snd (POST_orders demo_runtime demo_store ?payload))
          = map (stock_after (items ?req)) (products demo_store)"
    by simp
  then show ?thesis
    by (simp add: stock_after_def ordered_quantity_def demo_store_def)
qed

text \<open>
  The status of a validation failure: 400 for the messages that start with \<open>Missing\<close> or
  \<open>Invalid\<close>, which are those of a bad user, product identifier, quantity, price or total.
\<close>

lemma lower_prefixes:
  "toLowerCase ''Missing'' = ''missing''" "toLowerCase ''Invalid'' = ''invalid''"
  by code_simp+

lemma catch_missing: "catch_response (''Missing'' @ m) = json_error 400 (''Missing'' @ m)"
proof -
  have "toLowerCase (''Missing'' @ m) = ''missing'' @ toLowerCase m"
    using lower_prefixes(1) by (simp add: toLowerCase_def)
  then show ?thesis by (simp add: catch_response_def)
qed

lemma catch_invalid: "catch_response (''Invalid'' @ m) = json_error 400 (''Invalid'' @ m)"
proof -
  have "toLowerCase (''Invalid'' @ m) = ''invalid'' @ toLowerCase m"
    using lower_prefixes(2) by (simp add: toLowerCase_def)
  then show ?thesis by (simp add: catch_response_def)
qed

lemma field_errors_answered_400:
  "catch_response ''Missing or invalid 'userId'.'' = json_error 400 ''Missing or invalid 'userId'.''"
  "catch_response (productId_error idx) = json_error 400 (productId_error idx)"
  "catch_response (quantity_error idx) = json_error 400 (quantity_error idx)"
  "catch_response (price_error idx) = json_error 400 (price_error idx)"
  "catch_response total_error = json_error 400 total_error"
  using catch_missing[of "'' or invalid 'userId'.''"]
    catch_missing[of "'' or invalid 'productId' for item at index '' @ show_nat idx @ ''.''"]
    catch_missing[of "'' or invalid 'quantity' for item at index '' @ show_nat idx
                       @ ''. Must be a positive integer.''"]
    catch_invalid[of "'' 'price' for item at index '' @ show_nat idx @ ''.''"]
    catch_missing[of "'' or invalid 'total'. Must be a non-negative number.''"]
  by (simp_all add: productId_error_def quantity_error_def price_error_def total_error_def)

lemma validation_failure_response:
  "validateOrderPayload payload = Inl m \<Longrightarrow> POST_orders rt s payload = (catch_response m, s)"
  by (simp add: POST_orders_def)

text \<open>
  C5 fails on the code, against the comment of the handler (validation errors should return
  400): the status is chosen by looking for \<open>missing\<close> or \<open>invalid\<close> in the message, and
  three messages of the validator have neither. A body that is \<open>null\<close>, a payload whose
  items are empty and a payload with an item that is not an object are answered 500.
\<close>

theorem validation_failures_answered_500:
  "POST_orders rt s JNull = (json_error 500 ''Payload must be a JSON object.'', s)
   \<and> POST_orders rt s (JObj [(''userId'', JStr ''u1''), (''items'', JArr []),
                             (''total'', JNum (Fin 10))])
       = (json_error 500 '''items' must be a non-empty array.'', s)
   \<and> POST_orders rt s (JObj [(''userId'', JStr ''u1''), (''items'', JArr [JNum (Fin 1)]),
                             (''total'', JNum (Fin 10))])
       = (json_error 500 ''Item at index 0 must be an object.'', s)"
proof -
  have c1: "catch_response ''Payload must be a JSON object.''
              = json_error 500 ''Payload must be a JSON object.''"
    by code_simp
  have c2: "catch_response '''items' must be a non-empty array.''
              = json_error 500 '''items' must be a non-empty array.''"
    by code_simp
  have c3: "catch_response ''Item at index 0 must be an object.''
              = json_error 500 ''Item at index 0 must be an object.''"
    by code_simp
  have v2: "validateOrderPayload (JObj [(''userId'', JStr ''u1''), (''items'', JArr []),
                                        (''total'', JNum (Fin 10))])
              = Inl '''items' must be a non-empty array.''"
    by code_simp
  have v3: "validateOrderPayload (JObj [(''userId'', JStr ''u1''), (''items'', JArr [JNum (Fin 1)]),
                                        (''total'', JNum (Fin 10))])
              = Inl ''Item at index 0 must be an object.''"
    by code_simp
  show ?thesis
    by (simp add: POST_orders_def v2 v3 c1 c2 c3) (simp add: validateOrderPayload_def c1)
qed

text \<open>
  C6. The checks before the transaction look at each item alone: they pass exactly when
  every item has its product and asks for no more than the stock fetched for that product,
  whatever the other items ask of the same product. So the payload that orders 3 and 3 again
  of \<open>p1\<close>, whose stock is 5, passes every check (each 3 is at most 5, their sum 6 is not),
  the order is created, and the stock of \<open>p1\<close> ends at -1.
\<close>

theorem duplicate_items_oversell:
  "(check_items rt byId its = None
      \<longleftrightarrow> list_all (\<lambda>item. case byId (productId item) of
                             None \<Rightarrow> False
                           | Some pr \<Rightarrow> (case p_stock pr of
                                            None \<Rightarrow> True
                                          | Some a \<Rightarrow> quantity item \<le> a)) its)
   \<and> validateOrderPayload (order_payload ''u1'' [(''p1'', 3), (''p1'', 3)] 120)
       = Inr \<lparr>userId = ''u1'',
              items = [\<lparr>productId = ''p1'', quantity = 3, price = None\<rparr>,
                       \<lparr>productId = ''p1'', quantity = 3, price = None\<rparr>],
              shipping = None, paymentMethod = None, total = 120\<rparr>
   \<and> map p_stock (products demo_store) = [Some 5, None]
   \<and> ordered_quantity [\<lparr>productId = ''p1'', quantity = 3, price = None\<rparr>,
                        \<lparr>productId = ''p1'', quantity = 3, price = None\<rparr>] ''p1'' = 6
   \<and> status (fst (POST_orders demo_runtime demo_store
                    (order_payload ''u1'' [(''p1'', 3), (''p1'', 3)] 120))) = 201
   \<and> map p_stock (products (snd (POST_orders demo_runtime demo_store
                                    (order_payload ''u1'' [(''p1'', 3), (''p1'', 3)] 120))))
       = [Some (- 1), None]"
proof -
  have "check_items rt byId its = None
      \<longleftrightarrow> list_all (\<lambda>item. case byId (productId item) of
                             None \<Rightarrow> False
                           | Some pr \<Rightarrow> (case p_stock pr of
                                            None \<Rightarrow> True
                                          | Some a \<Rightarrow> quantity item \<le> a)) its"
    by (induction its) (auto split: option.splits)
  moreover have "validateOrderPayload (order_payload ''u1'' [(''p1'', 3), (''p1'', 3)] 120)
       = Inr \<lparr>userId = ''u1'',
              items = [\<lparr>productId = ''p1'', quantity = 3, price = None\<rparr>,
                       \<lparr>productId = ''p1'', quantity = 3, price = None\<rparr>],
              shipping = None, paymentMethod = None, total = 120\<rparr>"
    by code_simp
  moreover have "map p_stock (products demo_store) = [Some 5, None]"
    by (simp add: demo_store_def)
  moreover have "ordered_quantity [\<lparr>productId = ''p1'', quantity = 3, price = None\<rparr>,
                        \<lparr>productId = ''p1'', quantity = 3, price = None\<rparr>] ''p1'' = 6"
    by (simp add: ordered_quantity_def)
  moreover have "status (fst (POST_orders demo_runtime demo_store
                    (order_payload ''u1'' [(''p1'', 3), (''p1'', 3)] 120))) = 201"
    by code_simp
  moreover have "map p_stock (products (snd (POST_orders demo_runtime demo_store
                                    (order_payload ''u1'' [(''p1'', 3), (''p1'', 3)] 120))))
       = [Some (- 1), None]"
    by code_simp
  ultimately show ?thesis by blast
qed

section \<open>Properties of the responses that show a user\<close>

lemma sanitizeUser_no_password: "\<not> has_password (sanitizeUser v)"
  by (cases v) (auto simp: sanitizeUser_def has_password_def)

lemma sanitizeUser_not_array: "users_in_body (sanitizeUser v) = [sanitizeUser v]"
  by (cases v) (auto simp: sanitizeUser_def users_in_body_def)

lemma user_error_no_password: "\<not> has_password (body (user_error c m))"
  by (simp add: user_error_def has_password_def)

lemma user_error_body: "users_in_body (body (user_error c m)) = [body (user_error c m)]"
  by (simp add: user_error_def users_in_body_def)

text \<open>Every response of the users route is an error or shows sanitized users only.\<close>

lemma users_GET_shape:
  "(\<exists>c msg. users_GET m ident email = user_error c msg)
   \<or> (\<exists>v. users_GET m ident email = \<lparr>status = 200, body = sanitizeUser v\<rparr>)
   \<or> (\<exists>vs. users_GET m ident email = \<lparr>status = 200, body = JArr (map sanitizeUser vs)\<rparr>)"
proof -
  have "users_GET m ident email
          = \<lparr>status = 200, body = JArr (map sanitizeUser (map (\<lambda>kv. JObj (snd kv)) m))\<rparr>"
    if "\<not> param_given ident" "\<not> param_given email"
    using that by (simp add: users_GET_def comp_def)
  moreover have "(\<exists>c msg. users_GET m ident email = user_error c msg)
   \<or> (\<exists>v. users_GET m ident email = \<lparr>status = 200, body = sanitizeUser v\<rparr>)"
    if "param_given ident"
    using that by (cases "mem_get m (JStr (the ident))") (auto simp: users_GET_def)
  moreover have "(\<exists>c msg. users_GET m ident email = user_error c msg)
   \<or> (\<exists>v. users_GET m ident email = \<lparr>status = 200, body = sanitizeUser v\<rparr>)"
    if "\<not> param_given ident" "param_given email"
    using that by (cases "mem_getByEmail m (JStr (the email))") (auto simp: users_GET_def)
  ultimately show ?thesis by blast
qed

lemma users_GET_safe:
  "list_all (\<lambda>u. \<not> has_password u) (users_in_body (body (users_GET m ident email)))"
proof -
  consider (failed) c msg where "users_GET m ident email = user_error c msg"
    | (one) v where "users_GET m ident email = \<lparr>status = 200, body = sanitizeUser v\<rparr>"
    | (many) vs where
        "users_GET m ident email = \<lparr>status = 200, body = JArr (map sanitizeUser vs)\<rparr>"
    using users_GET_shape[of m ident email] by blast
  then show ?thesis
  proof cases
    case failed
    then show ?thesis by (simp add: user_error_body user_error_no_password)
  next
    case one
    then show ?thesis by (simp add: sanitizeUser_not_array sanitizeUser_no_password)
  next
    case many
    then show ?thesis by (simp add: users_in_body_def list_all_iff sanitizeUser_no_password)
  qed
qed

lemma users_POST_shape:
  "(\<exists>c msg. fst (users_POST rt m b) = user_error c msg)
   \<or> (\<exists>v. fst (users_POST rt m b) = \<lparr>status = 201, body = sanitizeUser v\<rparr>)"
  unfolding users_POST_def Let_def
  by (simp split: option.splits sum.splits prod.splits) blast

lemma users_POST_safe: "\<not> has_password (body (fst (users_POST rt m b)))"
  using users_POST_shape[of rt m b]
  by (auto simp: user_error_no_password sanitizeUser_no_password)

lemma users_PUT_shape:
  "(\<exists>c msg. fst (users_PUT rt m ident email updates) = user_error c msg)
   \<or> (\<exists>v. fst (users_PUT rt m ident email updates) = \<lparr>status = 200, body = sanitizeUser v\<rparr>)"
  unfolding users_PUT_def Let_def
  by (simp split: option.splits sum.splits prod.splits) blast

lemma users_PUT_safe: "\<not> has_password (body (fst (users_PUT rt m ident email updates)))"
  using users_PUT_shape[of rt m ident email updates]
  by (auto simp: user_error_no_password sanitizeUser_no_password)

lemma users_DELETE_shape:
  "(\<exists>c msg. fst (users_DELETE m ident email) = user_error c msg)
   \<or> (\<exists>v. fst (users_DELETE m ident email)
           = \<lparr>status = 200, body = JObj [(''success'', JBool True), (''user'', sanitizeUser v)]\<rparr>)"
  unfolding users_DELETE_def Let_def
  by (simp split: option.splits sum.splits prod.splits) blast

lemma users_DELETE_safe:
  "list_all (\<lambda>u. \<not> has_password u)
     (user_of_deletion (body (fst (users_DELETE m ident email))))"
  using users_DELETE_shape[of m ident email]
  by (auto simp: user_error_def user_of_deletion_def has_password_def
      sanitizeUser_no_password[unfolded has_password_def])

lemma order_json_user:
  "user_of_order (order_json s ord)
     = [opt_json user_projection (find (\<lambda>u. u_id u = o_userId ord) (users s))]"
  by (simp add: order_json_def user_of_order_def)

lemma projection_minimal: "minimal_user (user_projection u)"
  by (simp add: minimal_user_def user_projection_def)

lemma order_json_user_minimal:
  "list_all (\<lambda>u. u = JNull \<or> minimal_user u) (user_of_order (order_json s ord))"
  by (simp add: order_json_user opt_json_def projection_minimal split: option.splits)

lemma order_json_not_array:
  "(case order_json s ord of JArr os \<Rightarrow> os | _ \<Rightarrow> [order_json s ord]) = [order_json s ord]"
  by (simp add: order_json_def)

lemma GET_orders_users:
  "list_all (\<lambda>u. u = JNull \<or> minimal_user u) (order_users (GET_orders s))"
  using order_json_user_minimal
  by (auto simp: GET_orders_def order_users_def list_all_iff)

lemma POST_orders_shape:
  "(\<exists>c msg. fst (POST_orders rt s payload) = json_error c msg)
   \<or> (\<exists>s' x. fst (POST_orders rt s payload)
         = \<lparr>status = 201, body = JObj [(''success'', JBool True),
                                        (''data'', opt_json (order_json s') x)]\<rparr>)"
proof -
  have c: "\<exists>c msg. catch_response m = json_error c msg" for m
    by (auto simp: catch_response_def)
  have k: "check_items rt byId its = Some r \<Longrightarrow> \<exists>c msg. r = json_error c msg" for byId its r
    by (induction its) (auto split: option.splits if_splits)
  show ?thesis
    unfolding POST_orders_def Let_def
    using c k by (auto split: sum.splits option.splits)
qed

lemma POST_orders_users:
  "list_all (\<lambda>u. u = JNull \<or> minimal_user u) (order_users (fst (POST_orders rt s payload)))"
proof -
  have e: "order_users (json_error c m) = []" for c m
    by (simp add: order_users_def json_error_def)
  have d: "list_all (\<lambda>u. u = JNull \<or> minimal_user u)
             (order_users \<lparr>status = 201, body = JObj [(''success'', JBool True),
                                        (''data'', opt_json (order_json s') x)]\<rparr>)" for s' x
    using order_json_user_minimal[of s']
    by (cases x) (simp_all add: order_users_def opt_json_def order_json_not_array user_of_order_def)
  from POST_orders_shape[of rt s payload] show ?thesis
    using e d by auto
qed

text \<open>
  C7. No response of a handler that shows a user has the password of a user. On the users
  route, the body of \<open>GET\<close> (one user, or every element of the array of all users), of
  \<open>POST\<close> and of \<open>PUT\<close>, and the body of \<open>DELETE\<close> with its \<open>user\<close> property, are
  errors or results of \<open>sanitizeUser\<close>, and none of them has a \<open>password\<close> property. On the
  orders route, the \<open>user\<close> of every order in the body of \<open>GET\<close> and of \<open>POST\<close> is the
  projection whose keys are \<open>id\<close>, \<open>name\<close> and \<open>email\<close> (or null when the row is absent).
\<close>

theorem password_never_shown:
  "list_all (\<lambda>u. \<not> has_password u) (users_in_body (body (users_GET m ident email)))
   \<and> \<not> has_password (body (fst (users_POST rt m b)))
   \<and> \<not> has_password (body (fst (users_PUT rt m ident email updates)))
   \<and> list_all (\<lambda>u. \<not> has_password u) (user_of_deletion (body (fst (users_DELETE m ident email))))
   \<and> list_all (\<lambda>u. u = JNull \<or> minimal_user u) (order_users (GET_orders s))
   \<and> list_all (\<lambda>u. u = JNull \<or> minimal_user u) (order_users (fst (POST_orders rt s payload)))"
  using users_GET_safe users_POST_safe users_PUT_safe users_DELETE_safe GET_orders_users
    POST_orders_users
  by blast

theorem password_never_shown_witness:
  "has_password (JObj (snd (hd demo_memory)))
   \<and> status (users_GET demo_memory (Some ''uuid-1'') None) = 200
   \<and> list_all (\<lambda>u. \<not> has_password u)
        (users_in_body (body (users_GET demo_memory (Some ''uuid-1'') None)))
   \<and> status (fst (users_DELETE demo_memory None (Some ''ann@example.org''))) = 200
   \<and> list_all (\<lambda>u. \<not> has_password u)
        (user_of_deletion (body (fst (users_DELETE demo_memory None (Some ''ann@example.org'')))))
   \<and> order_users (fst (POST_orders demo_runtime demo_store (order_payload ''u1'' [(''p1'', 2)] 40)))
       = [JObj [(''id'', JStr ''u1''), (''name'', JStr ''Ann''),
                (''email'', JStr ''ann@example.org'')]]
   \<and> list_all (\<lambda>u. u = JNull \<or> minimal_user u)
        (order_users (fst (POST_orders demo_runtime demo_store
                             (order_payload ''u1'' [(''p1'', 2)] 40))))"
proof -
  have stored: "has_password (JObj (snd (hd demo_memory)))"
    by code_simp
  have got: "status (users_GET demo_memory (Some ''uuid-1'') None) = 200"
    by code_simp
  have gone: "status (fst (users_DELETE demo_memory None (Some ''ann@example.org''))) = 200"
    by code_simp
  have shown: "order_users (fst (POST_orders demo_runtime demo_store
                                   (order_payload ''u1'' [(''p1'', 2)] 40)))
       = [JObj [(''id'', JStr ''u1''), (''name'', JStr ''Ann''),
                (''email'', JStr ''ann@example.org'')]]"
    by code_simp
  from password_never_shown[of demo_memory "Some ''uuid-1''" None demo_runtime JNull JNull
      demo_store "order_payload ''u1'' [(''p1'', 2)] 40"]
    password_never_shown[of demo_memory None "Some ''ann@example.org''" demo_runtime JNull JNull
      demo_store "order_payload ''u1'' [(''p1'', 2)] 40"]
    stored got gone shown
  show ?thesis by blast
qed

section \<open>Properties of the catalog sort\<close>

lemma insert_by_all:
  "insert_by cmp x zs = Some r \<Longrightarrow> list_all Q zs \<Longrightarrow> Q x \<Longrightarrow> list_all Q r"
  by (induction zs arbitrary: r) (auto split: option.splits if_splits)

text \<open>
  A comparator that never puts an element with the property after one without it keeps the
  elements with the property in front, whatever it does inside the two groups.
\<close>

lemma insert_by_partitioned:
  assumes lo: "\<And>a b c. P a \<Longrightarrow> \<not> P b \<Longrightarrow> cmp a b = Some c \<Longrightarrow> \<not> num_lt (Fin 0) c"
    and hi: "\<And>a b c. \<not> P a \<Longrightarrow> P b \<Longrightarrow> cmp a b = Some c \<Longrightarrow> num_lt (Fin 0) c"
    and "partitioned P ys" and "insert_by cmp x ys = Some r"
  shows "partitioned P r"
  using assms(3,4)
proof (induction ys arbitrary: r)
  case Nil
  then show ?case by auto
next
  case (Cons y ys)
  from Cons.prems(2) obtain c where c: "cmp x y = Some c"
    by (auto split: option.splits)
  show ?case
  proof (cases "num_lt (Fin 0) c")
    case True
    with Cons.prems(2) c obtain r' where r': "insert_by cmp x ys = Some r'" "r = y # r'"
      by auto
    show ?thesis
    proof (cases "P y")
      case py: True
      with Cons.prems(1) have "partitioned P ys" by simp
      from Cons.IH[OF this r'(1)] py r'(2) show ?thesis by simp
    next
      case ny: False
      with Cons.prems(1) have rest: "list_all (\<lambda>y. \<not> P y) ys" by simp
      have "\<not> P x" using lo[of x y c] ny c True by blast
      with rest have "list_all (\<lambda>y. \<not> P y) r'"
        using insert_by_all[OF r'(1), where Q = "\<lambda>y. \<not> P y"] by simp
      with ny r'(2) show ?thesis by simp
    qed
  next
    case False
    with Cons.prems(2) c have r: "r = x # y # ys" by simp
    show ?thesis
    proof (cases "P x")
      case True
      with r Cons.prems(1) show ?thesis by simp
    next
      case nx: False
      have "\<not> P y" using hi[of x y c] nx c False by blast
      with nx r Cons.prems(1) show ?thesis by simp
    qed
  qed
qed

lemma sort_by_partitioned:
  assumes "\<And>a b c. P a \<Longrightarrow> \<not> P b \<Longrightarrow> cmp a b = Some c \<Longrightarrow> \<not> num_lt (Fin 0) c"
    and "\<And>a b c. \<not> P a \<Longrightarrow> P b \<Longrightarrow> cmp a b = Some c \<Longrightarrow> num_lt (Fin 0) c"
    and "sort_by cmp xs = Some ys"
  shows "partitioned P ys"
  using assms(3)
proof (induction xs arbitrary: ys)
  case Nil
  then show ?case by simp
next
  case (Cons x xs)
  then obtain zs where zs: "sort_by cmp xs = Some zs" "insert_by cmp x zs = Some ys"
    by (auto split: option.splits)
  show ?case
  proof (rule insert_by_partitioned[where P = P and cmp = cmp and ys = zs and x = x])
    show "\<And>a b c. P a \<Longrightarrow> \<not> P b \<Longrightarrow> cmp a b = Some c \<Longrightarrow> \<not> num_lt (Fin 0) c"
      by (rule assms(1))
    show "\<And>a b c. \<not> P a \<Longrightarrow> P b \<Longrightarrow> cmp a b = Some c \<Longrightarrow> num_lt (Fin 0) c"
      by (rule assms(2))
    show "partitioned P zs" by (rule Cons.IH[OF zs(1)])
    show "insert_by cmp x zs = Some ys" by (rule zs(2))
  qed
qed

text \<open>The sort returns when the comparator does, and keeps the elements.\<close>

lemma insert_by_total:
  "\<forall>y \<in> set ys. cmp x y \<noteq> None \<Longrightarrow> \<exists>r. insert_by cmp x ys = Some r \<and> set r = insert x (set ys)"
  by (induction ys) auto

lemma sort_by_total:
  "\<forall>x \<in> set xs. \<forall>y \<in> set xs. cmp x y \<noteq> None \<Longrightarrow>
     \<exists>ys. sort_by cmp xs = Some ys \<and> set ys = set xs"
proof (induction xs)
  case Nil
  then show ?case by simp
next
  case (Cons x xs)
  then obtain zs where zs: "sort_by cmp xs = Some zs" "set zs = set xs" by auto
  with Cons.prems have "\<forall>y \<in> set zs. cmp x y \<noteq> None" by simp
  from insert_by_total[of zs cmp x, OF this] zs show ?case by auto
qed

lemma compare_lacking:
  assumes "lacks_key srt a"
  shows "compare_products rt srt ord a b =
     Some (if lacks_key srt b then Fin 0 else if ord = ''asc'' then Fin (- 1) else Fin 1)"
  using assms by (simp add: compare_products_def lacks_key_def)

lemma compare_having_lacking:
  assumes "\<not> lacks_key srt a" "lacks_key srt b"
  shows "compare_products rt srt ord a b = Some (if ord = ''asc'' then Fin 1 else Fin (- 1))"
  using assms by (simp add: compare_products_def lacks_key_def)

lemma number_of_converts: "key_converts srt p \<Longrightarrow> number_of (read_key p srt) \<noteq> None"
  by (cases "read_key p srt") (simp_all add: key_converts_def)

lemma compare_converts:
  assumes "key_converts srt a" "key_converts srt b"
  shows "compare_products rt srt ord a b \<noteq> None"
proof -
  from assms obtain m n where "number_of (read_key a srt) = Some m"
    "number_of (read_key b srt) = Some n"
    using number_of_converts by blast
  then show ?thesis
    unfolding compare_products_def Let_def
    by (cases "read_key a srt"; cases "read_key b srt")
       (auto simp del: number_of.simps simp: sub_numbers_def split: json.splits)
qed

text \<open>
  A key that every object inherits is never lacking: a record without a property of that
  name is compared by the number of the inherited member, which is NaN.
\<close>

lemma inherited_key_compared:
  "\<not> lacks_key ''constructor'' p"
  "compare_products rt ''constructor'' ord [(''name'', JStr ''b'')] [(''constructor'', JNum (Fin 3))]
     = Some NaN"
  by (simp_all add: lacks_key_def read_key_def prototype_members_def compare_products_def
      sub_numbers_def num_sub_def Let_def split: option.splits)

text \<open>
  C9, as the code has it. A record lacks the sort key when reading the key in it gives
  \<open>undefined\<close>. When exactly one of two records lacks the sort key, the comparator is
  negative on (lacking, having) and positive on (having, lacking) in ascending order, and
  the other way round in any other order: the record that lacks the key sorts before the one
  that has it when the order is ascending, and after it when the order is descending. So in
  the list the sort returns, the records lacking the key come first in ascending order and
  last in descending order; and the sort returns whenever no value of the key is an object
  whose conversion to a number throws.
\<close>

theorem missing_sort_key_order:
  "(lacks_key srt a \<and> \<not> lacks_key srt b \<longrightarrow>
      compare_products rt srt ord a b = Some (if ord = ''asc'' then Fin (- 1) else Fin 1)
      \<and> compare_products rt srt ord b a = Some (if ord = ''asc'' then Fin 1 else Fin (- 1)))
   \<and> (sort_by (compare_products rt srt ''asc'') xs = Some ys \<longrightarrow>
        partitioned (lacks_key srt) ys)
   \<and> (other \<noteq> ''asc'' \<and> sort_by (compare_products rt srt other) xs = Some zs \<longrightarrow>
        partitioned (\<lambda>p. \<not> lacks_key srt p) zs)
   \<and> (list_all (key_converts srt) ws \<longrightarrow>
        (\<exists>vs. sort_by (compare_products rt srt ord) ws = Some vs \<and> set vs = set ws))"
proof (intro conjI impI)
  assume "lacks_key srt a \<and> \<not> lacks_key srt b"
  then show "compare_products rt srt ord a b = Some (if ord = ''asc'' then Fin (- 1) else Fin 1)"
    and "compare_products rt srt ord b a = Some (if ord = ''asc'' then Fin 1 else Fin (- 1))"
    by (simp_all add: compare_lacking compare_having_lacking)
next
  assume "sort_by (compare_products rt srt ''asc'') xs = Some ys"
  then show "partitioned (lacks_key srt) ys"
    by (rule sort_by_partitioned[rotated 2])
       (auto simp: compare_lacking compare_having_lacking)
next
  assume "other \<noteq> ''asc'' \<and> sort_by (compare_products rt srt other) xs = Some zs"
  then have o: "other \<noteq> ''asc''" and s: "sort_by (compare_products rt srt other) xs = Some zs"
    by simp_all
  from s show "partitioned (\<lambda>p. \<not> lacks_key srt p) zs"
    by (rule sort_by_partitioned[rotated 2])
       (use o in \<open>auto simp: compare_lacking compare_having_lacking\<close>)
next
  assume "list_all (key_converts srt) ws"
  then have "\<forall>x \<in> set ws. \<forall>y \<in> set ws. compare_products rt srt ord x y \<noteq> None"
    by (simp add: list_all_iff compare_converts)
  then show "\<exists>vs. sort_by (compare_products rt srt ord) ws = Some vs \<and> set vs = set ws"
    by (rule sort_by_total)
qed

theorem missing_sort_key_order_witness:
  "compare_products demo_runtime ''price'' ''asc''
       [(''name'', JStr ''b'')] [(''name'', JStr ''a''), (''price'', JNum (Fin 3))]
     = Some (Fin (- 1))
   \<and> sort_by (compare_products demo_runtime ''price'' ''asc'') demo_catalog
       = Some [[(''name'', JStr ''b'')],
               [(''name'', JStr ''c''), (''price'', JNum (Fin 1))],
               [(''name'', JStr ''a''), (''price'', JNum (Fin 3))]]
   \<and> partitioned (lacks_key ''price'')
        [[(''name'', JStr ''b'')],
         [(''name'', JStr ''c''), (''price'', JNum (Fin 1))],
         [(''name'', JStr ''a''), (''price'', JNum (Fin 3))]]
   \<and> sort_by (compare_products demo_runtime ''price'' ''desc'') demo_catalog
       = Some [[(''name'', JStr ''a''), (''price'', JNum (Fin 3))],
               [(''name'', JStr ''c''), (''price'', JNum (Fin 1))],
               [(''name'', JStr ''b'')]]
   \<and> partitioned (\<lambda>p. \<not> lacks_key ''price'' p)
        [[(''name'', JStr ''a''), (''price'', JNum (Fin 3))],
         [(''name'', JStr ''c''), (''price'', JNum (Fin 1))],
         [(''name'', JStr ''b'')]]
   \<and> list_all (key_converts ''price'') demo_catalog"
proof -
  let ?a = "[(''name'', JStr ''a''), (''price'', JNum (Fin 3))]"
  let ?b = "[(''name'', JStr ''b'')]"
  let ?c = "[(''name'', JStr ''c''), (''price'', JNum (Fin 1))]"
  have lk: "lacks_key ''price'' ?b \<and> \<not> lacks_key ''price'' ?a"
    by (simp add: lacks_key_def read_key_def prototype_members_def)
  have up: "sort_by (compare_products demo_runtime ''price'' ''asc'') demo_catalog
              = Some [?b, ?c, ?a]"
    by code_simp
  have down: "sort_by (compare_products demo_runtime ''price'' ''desc'') demo_catalog
              = Some [?a, ?c, ?b]"
    by code_simp
  have conv: "list_all (key_converts ''price'') demo_catalog"
    by code_simp
  from missing_sort_key_order[of "''price''" ?b ?a demo_runtime "''asc''" demo_catalog
      "[?b, ?c, ?a]" "''desc''" "[?a, ?c, ?b]" demo_catalog] lk up down conv
  show ?thesis by simp
qed

text \<open>
  The claim as written has the two directions exchanged: sorted by price in ascending order,
  the record without a price comes before the record with one, and in descending order it
  comes after it.
\<close>

theorem missing_sort_key_counterexample:
  "lacks_key ''price'' [(''name'', JStr ''b'')]
   \<and> \<not> lacks_key ''price'' [(''name'', JStr ''a''), (''price'', JNum (Fin 3))]
   \<and> sort_by (compare_products demo_runtime ''price'' ''asc'')
        [[(''name'', JStr ''a''), (''price'', JNum (Fin 3))], [(''name'', JStr ''b'')]]
       = Some [[(''name'', JStr ''b'')], [(''name'', JStr ''a''), (''price'', JNum (Fin 3))]]
   \<and> sort_by (compare_products demo_runtime ''price'' ''desc'')
        [[(''name'', JStr ''b'')], [(''name'', JStr ''a''), (''price'', JNum (Fin 3))]]
       = Some [[(''name'', JStr ''a''), (''price'', JNum (Fin 3))], [(''name'', JStr ''b'')]]"
  by (intro conjI; code_simp)

section \<open>Properties of the catalog query\<close>

lemma length_insert_by: "insert_by cmp x ys = Some r \<Longrightarrow> length r = Suc (length ys)"
  by (induction ys arbitrary: r) (auto split: option.splits if_splits)

lemma length_sort_by: "sort_by cmp xs = Some ys \<Longrightarrow> length ys = length xs"
  by (induction xs arbitrary: ys) (auto split: option.splits dest: length_insert_by)

text \<open>The clamps hold on every number but NaN, which \<open>Math.max\<close> and \<open>Math.min\<close> return.\<close>

lemma Math_max_one: "Math_max (Fin 1) n = NaN \<or> num_le (Fin 1) (Math_max (Fin 1) n)"
  by (cases n) (auto simp: Math_max_def)

lemma page_bound: "page_of q = NaN \<or> num_le (Fin 1) (page_of q)"
  unfolding page_of_def by (rule Math_max_one)

lemma limit_bound:
  "limit_of q = NaN \<or> (num_le (Fin 1) (limit_of q) \<and> num_le (limit_of q) (Fin 100))"
proof -
  have "Math_min (Fin 100) (Math_max (Fin 1) n) = NaN
        \<or> (num_le (Fin 1) (Math_min (Fin 100) (Math_max (Fin 1) n))
            \<and> num_le (Math_min (Fin 100) (Math_max (Fin 1) n)) (Fin 100))" for n
    by (cases n) (auto simp: Math_max_def Math_min_def)
  then show ?thesis unfolding limit_of_def by blast
qed

lemma page_limit_defaults:
  "\<not> param_given (q_page q) \<Longrightarrow> page_of q = Fin 1"
  "\<not> param_given (q_limit q) \<Longrightarrow> limit_of q = Fin 20"
  by (simp_all add: page_of_def limit_of_def Math_max_def Math_min_def)

text \<open>The total counts the matches of the whole collection, whatever page is asked.\<close>

lemma filter_ignores_page:
  "filter_products rt (q\<lparr>q_page := p, q_limit := l\<rparr>) file = filter_products rt q file"
  by (simp add: filter_products_def search_of_def cong: option.case_cong)

lemma sort_ignores_page:
  "sort_of (q\<lparr>q_page := p, q_limit := l\<rparr>) = sort_of q"
  "order_of (q\<lparr>q_page := p, q_limit := l\<rparr>) = order_of q"
  by (simp_all add: sort_of_def order_of_def)

lemma catalog_total:
  assumes "filter_products rt q file = Some found"
    and "sort_by (compare_products rt (sort_of q) (order_of q)) found = Some ordered"
  shows "status (GET_products rt file q) = 200"
    and "meta_of (GET_products rt file q) ''total'' = Some (JNum (Fin (of_nat (length found))))"
    and "meta_of (GET_products rt file (q\<lparr>q_page := p, q_limit := l\<rparr>)) ''total''
           = Some (JNum (Fin (of_nat (length found))))"
  using assms length_sort_by[OF assms(2)]
  by (simp_all add: GET_products_def filter_ignores_page sort_ignores_page Let_def meta_of_def)

lemma clamp_index_le: "clamp_index n c \<le> n"
proof (cases c)
  case (Fin r)
  define i where "i = (if 0 \<le> r then \<lfloor>r\<rfloor> else \<lceil>r\<rceil>)"
  have "clamp_index n c = (if i < 0 then nat (max (int n + i) 0) else min (nat i) n)"
    by (simp add: Fin clamp_index_def i_def Let_def)
  then show ?thesis by auto
qed (simp_all add: clamp_index_def)

lemma length_js_slice:
  "length (js_slice xs a b) = clamp_index (length xs) b - clamp_index (length xs) a"
  using clamp_index_le[of "length xs" a] clamp_index_le[of "length xs" b]
  by (simp add: js_slice_def Let_def min_def) arith

lemma clamp_index_int: "0 \<le> k \<Longrightarrow> clamp_index n (Fin (of_int k)) = min (nat k) n"
  by (simp add: clamp_index_def Let_def)

text \<open>When the page and the page size are integers, the page has at most that many items.\<close>

lemma catalog_page_size:
  assumes "filter_products rt q file = Some found"
    and "sort_by (compare_products rt (sort_of q) (order_of q)) found = Some ordered"
    and "page_of q = Fin (of_int p)" and "limit_of q = Fin (of_int l)"
  shows "int (length (page_items (GET_products rt file q))) \<le> l"
proof -
  from page_bound[of q] assms(3) have p: "1 \<le> p" by simp
  from limit_bound[of q] assms(4) have l: "1 \<le> l" by simp
  define s where "s = (p - 1) * l"
  have nn: "0 \<le> s" "0 \<le> s + l" using p l by (simp_all add: s_def)
  have start: "num_mul (num_sub (page_of q) (Fin 1)) (limit_of q) = Fin (of_int s)"
    by (simp add: assms num_mul_def num_sub_def s_def)
  have stop: "num_add (Fin (of_int s)) (limit_of q) = Fin (of_int (s + l))"
    by (simp add: assms)
  have "page_items (GET_products rt file q)
          = map JObj (js_slice ordered (Fin (of_int s)) (Fin (of_int (s + l))))"
    using assms(1,2) unfolding GET_products_def Let_def start stop
    by (simp add: page_items_def)
  then have "length (page_items (GET_products rt file q))
          = min (nat (s + l)) (length ordered) - min (nat s) (length ordered)"
    by (simp only: length_map length_js_slice clamp_index_int[OF nn(1)] clamp_index_int[OF nn(2)])
  also have "int \<dots> \<le> l" using nn l by (auto simp: min_def)
  finally show ?thesis .
qed

text \<open>
  C8 fails on the code, which clamps with \<open>Math.max\<close> and \<open>Math.min\<close> and misses the
  values they do not clamp. A \<open>page\<close> or a \<open>limit\<close> that is not a number, such as
  \<open>abc\<close>, makes \<open>Number\<close> return NaN, and NaN goes through both: the effective page is
  NaN, not a number that is at least 1, and the page of the response is empty. A fractional
  \<open>limit\<close> is kept as it is: with \<open>page=2\<close> and \<open>limit=1.5\<close> the effective page size is
  1.5 and the page has 2 items. The total is the number of matches in both responses.
\<close>

theorem catalog_page_not_clamped:
  "page_of (q\<lparr>q_page := Some ''abc''\<rparr>) = NaN
   \<and> limit_of (q\<lparr>q_limit := Some ''abc''\<rparr>) = NaN
   \<and> GET_products demo_runtime demo_catalog (demo_query\<lparr>q_page := Some ''abc''\<rparr>)
       = \<lparr>status = 200,
          body = JObj [(''data'', JArr []),
                       (''meta'', JObj [(''total'', JNum (Fin 3)), (''page'', JNum NaN),
                                        (''limit'', JNum (Fin 20))])]\<rparr>
   \<and> meta_of (GET_products demo_runtime demo_catalog
                 (demo_query\<lparr>q_page := Some ''2'', q_limit := Some ''1.5''\<rparr>)) ''limit''
       = Some (JNum (Fin (3 / 2)))
   \<and> length (page_items (GET_products demo_runtime demo_catalog
                            (demo_query\<lparr>q_page := Some ''2'', q_limit := Some ''1.5''\<rparr>))) = 2"
proof -
  have nan: "js_Number ''abc'' = NaN"
    by code_simp
  have "page_of (q\<lparr>q_page := Some ''abc''\<rparr>) = NaN"
    by (simp add: page_of_def param_given_def Math_max_def nan)
  moreover have "limit_of (q\<lparr>q_limit := Some ''abc''\<rparr>) = NaN"
    by (simp add: limit_of_def param_given_def Math_max_def Math_min_def nan)
  moreover have "GET_products demo_runtime demo_catalog (demo_query\<lparr>q_page := Some ''abc''\<rparr>)
       = \<lparr>status = 200,
          body = JObj [(''data'', JArr []),
                       (''meta'', JObj [(''total'', JNum (Fin 3)), (''page'', JNum NaN),
                                        (''limit'', JNum (Fin 20))])]\<rparr>"
    by code_simp
  moreover have "meta_of (GET_products demo_runtime demo_catalog
                 (demo_query\<lparr>q_page := Some ''2'', q_limit := Some ''1.5''\<rparr>)) ''limit''
       = Some (JNum (Fin (3 / 2)))"
    by code_simp
  moreover have "length (page_items (GET_products demo_runtime demo_catalog
                            (demo_query\<lparr>q_page := Some ''2'', q_limit := Some ''1.5''\<rparr>))) = 2"
    by code_simp
  ultimately show ?thesis by blast
qed

section \<open>Properties of product creation\<close>

lemma double_bounds:
  "double_overflow = 2 ^ 1024 - 2 ^ 970" "double_underflow = 1 / 2 ^ 1075"
  by (simp_all add: double_overflow_def double_underflow_def)

lemma last_dropWhile: "dropWhile P xs \<noteq> [] \<Longrightarrow> last (dropWhile P xs) = last xs"
  by (induction xs) (auto split: if_splits)

lemma trim_idem: "trim (trim s) = trim s"
proof -
  define t where "t = dropWhile is_space s"
  define u where "u = dropWhile is_space (rev t)"
  have tr: "trim s = rev u" by (simp add: trim_def t_def u_def)
  have "dropWhile is_space (rev u) = rev u"
  proof (cases "u = []")
    case True
    then show ?thesis by simp
  next
    case False
    then have "last u = last (rev t)" unfolding u_def by (rule last_dropWhile)
    moreover from False have "t \<noteq> []" by (auto simp: u_def)
    ultimately have "last u = hd t" by (simp add: last_rev)
    moreover from \<open>t \<noteq> []\<close> have "\<not> is_space (hd t)" unfolding t_def by (rule hd_dropWhile)
    ultimately have "\<not> is_space (hd (rev u))" using False by (simp add: hd_rev)
    with False show ?thesis by (cases "rev u") auto
  qed
  moreover have "dropWhile is_space u = u"
    by (simp add: u_def)
  ultimately have "trim (rev u) = rev u"
    by (simp add: trim_def)
  then show ?thesis
    by (simp add: tr)
qed

lemma slugify_trim: "slugify (trim s) = slugify s"
  by (simp add: slugify_def trim_idem)

lemma set_replace_runs: "set (replace_runs n P r s) \<subseteq> set r \<union> set s"
proof (induction n P r s rule: replace_runs.induct)
  case (1 n P r)
  then show ?case by simp
next
  case (2 n P r c cs)
  have "set (takeWhile P cs) \<subseteq> set cs" by (auto dest: set_takeWhileD)
  moreover have "set (dropWhile P cs) \<subseteq> set cs" by (auto dest: set_dropWhileD)
  ultimately show ?case using 2 by (auto split: if_splits)
qed

text \<open>Replacing every run by nothing deletes the characters of the class.\<close>

lemma replace_runs_delete: "replace_runs 1 P [] s = filter (\<lambda>c. \<not> P c) s"
proof (induction "1::nat" P "[]::string" s rule: replace_runs.induct)
  case (1 P)
  then show ?case by simp
next
  case (2 P c cs)
  have t: "filter (\<lambda>c. \<not> P c) (takeWhile P cs) = []"
    by (auto simp: filter_empty_conv dest: set_takeWhileD)
  have "filter (\<lambda>c. \<not> P c) cs
          = filter (\<lambda>c. \<not> P c) (takeWhile P cs) @ filter (\<lambda>c. \<not> P c) (dropWhile P cs)"
    by (metis filter_append takeWhile_dropWhile_id)
  with t have "filter (\<lambda>c. \<not> P c) cs = filter (\<lambda>c. \<not> P c) (dropWhile P cs)"
    by simp
  with 2 show ?case by simp
qed

lemma not_upper_lower: "\<not> is_upper (lower_char c)"
  by (auto simp: lower_char_def is_upper_def is_latin1_upper_def)

lemma replace_runs_hyphen:
  "replace_runs 2 (\<lambda>c. c = h) [h] (c # cs) =
     (if c = h then h # replace_runs 2 (\<lambda>c. c = h) [h] (dropWhile (\<lambda>c. c = h) cs)
      else c # replace_runs 2 (\<lambda>c. c = h) [h] cs)"
  by (cases cs) auto

lemma replace_runs_head:
  "s = [] \<or> hd s \<noteq> h \<Longrightarrow>
     replace_runs 2 (\<lambda>c. c = h) [h] s = [] \<or> hd (replace_runs 2 (\<lambda>c. c = h) [h] s) \<noteq> h"
  by (cases s) auto

lemma includes_double_Cons:
  "str_includes (c # ys) [h, h] \<longleftrightarrow> (c = h \<and> ys \<noteq> [] \<and> hd ys = h) \<or> str_includes ys [h, h]"
  by (cases ys) auto

lemma no_double_hyphen: "\<not> str_includes (replace_runs 2 (\<lambda>c. c = h) [h] s) [h, h]"
proof (induction "2::nat" "\<lambda>c. c = h" "[h]" s rule: replace_runs.induct)
  case 1
  then show ?case by simp
next
  case (2 c cs)
  show ?case
  proof (cases "c = h")
    case True
    let ?d = "dropWhile (\<lambda>c. c = h) cs"
    let ?R = "replace_runs 2 (\<lambda>c. c = h) [h] ?d"
    have "?d = [] \<or> hd ?d \<noteq> h" using hd_dropWhile[of "\<lambda>c. c = h" cs] by auto
    then have hd: "?R = [] \<or> hd ?R \<noteq> h" by (rule replace_runs_head)
    have ih: "\<not> str_includes ?R [h, h]" using 2(1)[OF True] .
    have eq: "replace_runs 2 (\<lambda>c. c = h) [h] (c # cs) = h # ?R"
      using True by (simp only: replace_runs_hyphen refl if_True)
    from hd ih have "\<not> str_includes (h # ?R) [h, h]"
      by (simp only: includes_double_Cons) blast
    then show ?thesis unfolding eq .
  next
    case False
    let ?R = "replace_runs 2 (\<lambda>c. c = h) [h] cs"
    have ih: "\<not> str_includes ?R [h, h]" using 2(2)[OF False] .
    have eq: "replace_runs 2 (\<lambda>c. c = h) [h] (c # cs) = c # ?R"
      using False by (simp only: replace_runs_hyphen if_False)
    from False ih have "\<not> str_includes (c # ?R) [h, h]"
      by (simp only: includes_double_Cons) blast
    then show ?thesis unfolding eq .
  qed
qed

lemma slugify_chars: "list_all slug_char (slugify s)"
proof -
  define x where "x = toLowerCase (trim s)"
  define y where "y = replace_runs 1 is_space ''-'' x"
  define z where "z = replace_runs 1 (\<lambda>c. \<not> (is_word c \<or> c = CHR ''-'')) [] y"
  have sl: "slugify s = replace_runs 2 (\<lambda>c. c = CHR ''-'') ''-'' z"
    by (simp add: slugify_def x_def y_def z_def)
  have hy: "\<not> is_upper CHR ''-''" by (simp add: is_upper_def)
  have "\<forall>c \<in> set x. \<not> is_upper c"
    by (auto simp: x_def toLowerCase_def not_upper_lower)
  with set_replace_runs[of 1 is_space "''-''" x] hy have "\<forall>c \<in> set y. \<not> is_upper c"
    unfolding y_def by auto
  then have "\<forall>c \<in> set z. slug_char c"
    unfolding z_def replace_runs_delete by (auto simp: slug_char_def)
  moreover have "slug_char CHR ''-''" by (simp add: slug_char_def)
  ultimately show ?thesis
    using set_replace_runs[of 2 "\<lambda>c. c = CHR ''-''" "''-''" z]
    unfolding sl list_all_iff by auto
qed

lemma slugify_no_double: "\<not> str_includes (slugify s) ''--''"
  unfolding slugify_def by (rule no_double_hyphen)

text \<open>
  The three replacements of \<open>slugify\<close> do what the specification says of a slug: the last
  one collapses the hyphens, and replacing each run of white space by one hyphen or each
  white-space character by a hyphen gives the same slug once the hyphens are collapsed.
\<close>

lemma collapse_hyphen_Cons:
  "collapse_hyphens (CHR ''-'' # z)
     = CHR ''-'' # collapse_hyphens (dropWhile (\<lambda>c. c = CHR ''-'') z)"
proof (induction z)
  case Nil
  then show ?case by simp
next
  case (Cons a r)
  then show ?case by (cases r) auto
qed

lemma collapse_other_Cons:
  "a \<noteq> CHR ''-'' \<Longrightarrow> collapse_hyphens (a # z) = a # collapse_hyphens z"
  by (cases z) auto

lemma collapse_dropWhile:
  "collapse_hyphens (dropWhile (\<lambda>c. c = CHR ''-'') z)
     = dropWhile (\<lambda>c. c = CHR ''-'') (collapse_hyphens z)"
proof (induction z)
  case Nil
  then show ?case by simp
next
  case (Cons a r)
  show ?case
  proof (cases "a = CHR ''-''")
    case True
    then show ?thesis using Cons by (simp add: collapse_hyphen_Cons)
  next
    case False
    then show ?thesis by (simp add: collapse_other_Cons)
  qed
qed

lemma collapse_cong:
  assumes "collapse_hyphens x = collapse_hyphens y"
  shows "collapse_hyphens (c # x) = collapse_hyphens (c # y)"
proof (cases "c = CHR ''-''")
  case True
  then show ?thesis using assms by (simp add: collapse_hyphen_Cons collapse_dropWhile)
next
  case False
  then show ?thesis using assms by (simp add: collapse_other_Cons)
qed

lemma replace_runs_collapse:
  "replace_runs 2 (\<lambda>c. c = CHR ''-'') ''-'' z = collapse_hyphens z"
proof (induction "2::nat" "\<lambda>c. c = CHR ''-''" "''-''" z rule: replace_runs.induct)
  case 1
  then show ?case by simp
next
  case (2 c cs)
  show ?case
  proof (cases "c = CHR ''-''")
    case True
    have "replace_runs 2 (\<lambda>c. c = CHR ''-'') ''-'' (c # cs)
            = CHR ''-'' # replace_runs 2 (\<lambda>c. c = CHR ''-'') ''-''
                            (dropWhile (\<lambda>c. c = CHR ''-'') cs)"
      using True by (simp only: replace_runs_hyphen refl if_True)
    also have "\<dots> = CHR ''-'' # collapse_hyphens (dropWhile (\<lambda>c. c = CHR ''-'') cs)"
      using 2(1)[OF True] by simp
    also have "\<dots> = collapse_hyphens (c # cs)"
      using True by (simp only: collapse_hyphen_Cons)
    finally show ?thesis .
  next
    case False
    have "replace_runs 2 (\<lambda>c. c = CHR ''-'') ''-'' (c # cs)
            = c # replace_runs 2 (\<lambda>c. c = CHR ''-'') ''-'' cs"
      using False by (simp only: replace_runs_hyphen if_False)
    also have "\<dots> = c # collapse_hyphens cs"
      using 2(2)[OF False] by simp
    also have "\<dots> = collapse_hyphens (c # cs)"
      using False by (simp add: collapse_other_Cons)
    finally show ?thesis .
  qed
qed

lemma spaces_absorbed:
  "collapse_hyphens (CHR ''-'' # filter K (map (\<lambda>c. if is_space c then CHR ''-'' else c) cs))
     = collapse_hyphens (CHR ''-'' # filter K (map (\<lambda>c. if is_space c then CHR ''-'' else c)
                                               (dropWhile is_space cs)))"
  if "K CHR ''-''"
  using that by (induction cs) auto

lemma hyphenate_collapse:
  assumes k: "K CHR ''-''"
  shows "collapse_hyphens (filter K (replace_runs 1 is_space ''-'' y))
     = collapse_hyphens (filter K (map (\<lambda>c. if is_space c then CHR ''-'' else c) y))"
proof (induction "1::nat" is_space "''-''" y rule: replace_runs.induct)
  case 1
  then show ?case by simp
next
  case (2 c cs)
  let ?sp = "\<lambda>c. if is_space c then CHR ''-'' else c"
  show ?case
  proof (cases "is_space c")
    case True
    have "collapse_hyphens (filter K (replace_runs 1 is_space ''-'' (c # cs)))
            = collapse_hyphens (CHR ''-'' # filter K (replace_runs 1 is_space ''-''
                                                        (dropWhile is_space cs)))"
      using True k by simp
    also have "\<dots> = collapse_hyphens (CHR ''-'' # filter K (map ?sp (dropWhile is_space cs)))"
      by (rule collapse_cong) (rule 2(1)[OF True])
    also have "\<dots> = collapse_hyphens (CHR ''-'' # filter K (map ?sp cs))"
      by (rule spaces_absorbed[where K = K and cs = cs, OF k, symmetric])
    also have "\<dots> = collapse_hyphens (filter K (map ?sp (c # cs)))"
      using True k by simp
    finally show ?thesis .
  next
    case False
    show ?thesis
    proof (cases "K c")
      case kc: True
      have "collapse_hyphens (c # filter K (replace_runs 1 is_space ''-'' cs))
              = collapse_hyphens (c # filter K (map ?sp cs))"
        by (rule collapse_cong) (rule 2(2)[OF False])
      with False kc show ?thesis by simp
    next
      case nk: False
      with False 2(2)[OF False] show ?thesis by simp
    qed
  qed
qed

lemma slugify_slugified: "slugify s = slugified (trim s)"
proof -
  have "slugify s =
      collapse_hyphens (filter (\<lambda>c. is_word c \<or> c = CHR ''-'')
         (replace_runs 1 is_space ''-'' (map lower_char (trim s))))"
    unfolding slugify_def replace_runs_collapse replace_runs_delete toLowerCase_def
    by simp
  also have "\<dots> = slugified (trim s)"
    unfolding slugified_def by (rule hyphenate_collapse) simp
  finally show ?thesis .
qed

lemma validated_name:
  "validateProductPayload b = Some (Inr v) \<Longrightarrow>
     \<exists>name. get_prop b ''name'' = Some (JStr name) \<and> v_name v = trim name"
  by (auto simp: validateProductPayload_def Let_def split: if_splits option.splits
      dest: nonempty_string_SomeD)

lemma validated_fields:
  assumes "validateProductPayload b = Some (Inr v)"
  shows "v_description v = string_field trim (get_prop b ''description'')"
    and "v_image v = string_field trim (get_prop b ''image'')"
    and "v_stock v = map_option to_number (get_prop b ''stock'')"
    and "v_category v = string_field trim (get_prop b ''category'')"
    and "v_slug v = string_field slugify (get_prop b ''slug'')"
    and "v_price v = to_number (the (get_prop b ''price''))"
  using assms
  by (auto simp: validateProductPayload_def Let_def split: if_splits)

text \<open>
  C10. For every valid product payload, \<open>POST /products\<close> answers 201 and stores the new
  product (at the front of the file store), in which every field the payload omits has its
  default: the description is the empty string, the image is null, the category is
  \<open>uncategorized\<close>, the stock is the number 0, a tracked stock, and the slug is the slug
  of the name of the product (the name of the payload, trimmed) as the specification words
  it: lower-cased, white space to hyphens, the characters that are neither word characters
  nor hyphens stripped, repeated hyphens collapsed. That is what \<open>slugify\<close> computes on
  every text, once trimmed; its result is lower case, made of word characters and hyphens
  only, with no two hyphens in a row.
\<close>

theorem product_defaults:
  assumes "validateProductPayload b = Some (Inr v)"
  shows "(\<exists>stored. POST_products rt file b
             = (\<lparr>status = 201, body = JObj [(''data'', JObj (newProduct rt v))]\<rparr>,
                stored # file)
      \<and> (get_prop b ''description'' = None \<longrightarrow>
            map_of (newProduct rt v) ''description'' = Some (JStr [])
            \<and> map_of stored ''description'' = Some (JStr []))
      \<and> (get_prop b ''image'' = None \<longrightarrow>
            map_of (newProduct rt v) ''image'' = Some JNull
            \<and> map_of stored ''image'' = Some JNull)
      \<and> (get_prop b ''category'' = None \<longrightarrow>
            map_of (newProduct rt v) ''category'' = Some (JStr ''uncategorized'')
            \<and> map_of stored ''category'' = Some (JStr ''uncategorized''))
      \<and> (get_prop b ''slug'' = None \<longrightarrow>
            (\<exists>name. get_prop b ''name'' = Some (JStr name)
               \<and> map_of (newProduct rt v) ''name'' = Some (JStr (trim name))
               \<and> map_of (newProduct rt v) ''slug'' = Some (JStr (slugified (trim name)))
               \<and> map_of stored ''slug'' = Some (JStr (slugified (trim name)))))
      \<and> (get_prop b ''stock'' = None \<longrightarrow>
            map_of (newProduct rt v) ''stock'' = Some (JNum (Fin 0))
            \<and> map_of stored ''stock'' = Some (JNum (Fin 0))))
    \<and> slugify t = slugified (trim t)
    \<and> list_all slug_char (slugify t) \<and> \<not> str_includes (slugify t) ''--''"
proof -
  from validated_name[OF assms] obtain name where
    name: "get_prop b ''name'' = Some (JStr name)" "v_name v = trim name" by blast
  note f = validated_fields[OF assms]
  have post: "POST_products rt file b
             = (\<lparr>status = 201, body = JObj [(''data'', JObj (newProduct rt v))]\<rparr>,
                stored_product (newProduct rt v) # file)"
    using assms by (simp add: POST_products_def)
  have d: "get_prop b ''description'' = None \<longrightarrow>
            map_of (newProduct rt v) ''description'' = Some (JStr [])
            \<and> map_of (stored_product (newProduct rt v)) ''description'' = Some (JStr [])"
    by (simp add: newProduct_def stored_product_def f string_field_def)
  have i: "get_prop b ''image'' = None \<longrightarrow>
            map_of (newProduct rt v) ''image'' = Some JNull
            \<and> map_of (stored_product (newProduct rt v)) ''image'' = Some JNull"
    by (simp add: newProduct_def stored_product_def f string_field_def)
  have c: "get_prop b ''category'' = None \<longrightarrow>
            map_of (newProduct rt v) ''category'' = Some (JStr ''uncategorized'')
            \<and> map_of (stored_product (newProduct rt v)) ''category''
                = Some (JStr ''uncategorized'')"
    by (simp add: newProduct_def stored_product_def f string_field_def)
  have sl: "get_prop b ''slug'' = None \<longrightarrow>
            (\<exists>name. get_prop b ''name'' = Some (JStr name)
               \<and> map_of (newProduct rt v) ''name'' = Some (JStr (trim name))
               \<and> map_of (newProduct rt v) ''slug'' = Some (JStr (slugified (trim name)))
               \<and> map_of (stored_product (newProduct rt v)) ''slug''
                   = Some (JStr (slugified (trim name))))"
    using name
    by (simp add: newProduct_def stored_product_def f string_field_def slugify_slugified
        trim_idem)
  have st: "get_prop b ''stock'' = None \<longrightarrow>
            map_of (newProduct rt v) ''stock'' = Some (JNum (Fin 0))
            \<and> map_of (stored_product (newProduct rt v)) ''stock'' = Some (JNum (Fin 0))"
    by (simp add: newProduct_def stored_product_def f isFinite_def)
  show ?thesis
    by (intro conjI exI[of _ "stored_product (newProduct rt v)"] post d i c sl st
        slugify_slugified slugify_chars slugify_no_double)
qed

theorem product_defaults_witness:
  "status (fst (POST_products demo_runtime [] demo_product_payload)) = 201
   \<and> map (map_of (hd (snd (POST_products demo_runtime [] demo_product_payload))))
        [''description'', ''image'', ''category'', ''slug'', ''stock'']
       = [Some (JStr []), Some JNull, Some (JStr ''uncategorized''), Some (JStr ''red-shoe''),
          Some (JNum (Fin 0))]
   \<and> slugify ''  A--b &  C_d '' = ''a-b-c_d''"
proof -
  let ?v = "\<lparr>v_name = ''Red   Shoe!'', v_price = Fin (25 / 2), v_description = None,
              v_image = None, v_stock = None, v_category = None, v_slug = None\<rparr>"
  have valid: "validateProductPayload demo_product_payload = Some (Inr ?v)"
    by code_simp
  have slug: "slugified (trim '' Red   Shoe! '') = ''red-shoe''"
    "slugified (trim ''  A--b &  C_d '') = ''a-b-c_d''"
    by code_simp+
  have omitted: "get_prop demo_product_payload ''description'' = None"
    "get_prop demo_product_payload ''image'' = None"
    "get_prop demo_product_payload ''category'' = None"
    "get_prop demo_product_payload ''slug'' = None"
    "get_prop demo_product_payload ''stock'' = None"
    "get_prop demo_product_payload ''name'' = Some (JStr '' Red   Shoe! '')"
    by (simp_all add: demo_product_payload_def)
  from product_defaults[OF valid, of demo_runtime "[]" "''  A--b &  C_d ''"] omitted slug
  show ?thesis by auto
qed

text \<open>
  A stock beyond the range of a double is an infinity, which the validator refuses; and a
  price that has no primitive makes the validator throw, which the handler answers with
  500.
\<close>

lemma product_payload_refused:
  "to_double (10 ^ 400) = PosInf"
  "\<not> isFinite PosInf"
  "POST_products demo_runtime []
     (JObj [(''name'', JStr ''a''), (''price'', JObj [(''toString'', JNum (Fin 1))])])
     = (\<lparr>status = 500, body = JObj [(''error'', JStr ''Internal Server Error'')]\<rparr>, [])"
  by (simp_all add: to_double_def double_overflow_def isFinite_def POST_products_def
      validateProductPayload_def)

end
